theory Spec2Isabelle
  imports Main "HOL-Library.AList" "HOL-Library.Sublist"
begin

section \<open>Exceptions and results\<close>

text \<open>
  The module \<^verbatim>\<open>pypomes_s3/minio_pomes.py\<close> wraps the calls of a MinIO client. Every
  wrapper catches \<^verbatim>\<open>Exception\<close> around the client call and tests the caught exception with
  \<^verbatim>\<open>not hasattr(e, "code") or e.code != "NoSuchKey"\<close>. An exception is therefore modelled
  by its class name, its optional attribute \<^verbatim>\<open>code\<close> (\<open>None\<close> when the exception has no
  such attribute) and its text. A Python \<^verbatim>\<open>str\<close> is a \<open>string\<close>, one \<open>char\<close> for each
  code point.
\<close>

datatype exn = Exn (exn_class: string) (exn_code: "string option") (exn_text: string)

type_synonym 'a outcome = "exn + 'a"

definition S3Error :: "string \<Rightarrow> exn" where
  "S3Error c = Exn ''S3Error'' (Some c) c"

definition FileNotFoundError :: "string \<Rightarrow> exn" where
  "FileNotFoundError p = Exn ''FileNotFoundError'' None p"

definition TypeError :: "string \<Rightarrow> exn" where
  "TypeError m = Exn ''TypeError'' None m"

definition reported :: "exn \<Rightarrow> bool" where
  \<comment> \<open>\<^verbatim>\<open>not hasattr(e, "code") or e.code != "NoSuchKey"\<close>\<close>
  "reported e \<longleftrightarrow> exn_code e = None \<or> exn_code e \<noteq> Some ''NoSuchKey''"

section \<open>Configuration and library functions\<close>

text \<open>
  The access parameters and the temporary folder come from \<^verbatim>\<open>_s3_get_params\<close> and
  \<^verbatim>\<open>_s3_get_param\<close>; \<^verbatim>\<open>unidecode\<close>, \<^verbatim>\<open>pathlib\<close>, \<^verbatim>\<open>uuid\<close> and \<^verbatim>\<open>pickle\<close> are libraries.
  They are parameters of the model, collected in one record: \<open>path_str a b\<close> stands for
  \<^verbatim>\<open>f"{Path(a) / b}"\<close>, \<open>uuid4 n\<close> for the \<open>n\<close>-th identifier drawn, \<open>pickle_dumps\<close> and
  \<open>pickle_loads\<close> for the two directions of the serialization (either may raise), and
  \<open>except_text\<close> for the message that \<^verbatim>\<open>_s3_except_msg\<close> renders from an exception and the
  engine name. A listing is answered in pages of \<open>page_size\<close> descriptors, one request for
  each page. The type \<open>'v\<close> is the type of the values given to the object store.
\<close>

record 'v env =
  cfg_access_key :: string
  cfg_secret_key :: string
  cfg_endpoint :: string
  cfg_secure :: bool
  temp_folder :: string
  path_str :: "string \<Rightarrow> string \<Rightarrow> string"
  unidecode :: "string \<Rightarrow> string"
  uuid4 :: "nat \<Rightarrow> string"
  pickle_dumps :: "'v \<Rightarrow> string outcome"
  pickle_loads :: "string \<Rightarrow> 'v outcome"
  except_text :: "exn \<Rightarrow> string \<Rightarrow> string"
  page_size :: nat

section \<open>The store, the local files and the client calls\<close>

text \<open>
  The MinIO service and the local file system are the collaborators of the module. They
  are modelled by a reference store: buckets, objects keyed by bucket and object name
  (in listing order), and local files keyed by path. Every call of the client first
  consults a script of faults, so that any call may raise any exception, and is recorded
  in a trace with the exception it raised, if any.

  The cursor that \<^verbatim>\<open>list_objects\<close> returns is lazy: the call sends nothing and cannot
  fail. The first \<^verbatim>\<open>next\<close> sends the request, which may fail; its answer is the sequence of
  the descriptors under the prefix at that moment, and every further page of it takes one
  more request, which may fail as well. A cursor that raised is exhausted. In
  \<open>Open b p r k obs\<close> the descriptors \<open>obs\<close> are still to be yielded, and the first \<open>k\<close> of them
  have been fetched already.
\<close>

type_synonym tags = "(string \<times> string) list"

record stored =
  payload :: string
  content_type :: string
  tagset :: "tags option"

record minio_object =
  bucket_name :: string
  object_name :: string
  is_dir :: bool

datatype minio = Minio string string string bool

datatype cursor =
    Unsent string string bool
  | Open string string bool nat "minio_object list"

datatype call =
    New_Minio string string string bool
  | Bucket_Exists string
  | Make_Bucket string
  | FPut_Object string string string string "tags option"
  | FGet_Object string string string
  | Stat_Object string string
  | Remove_Object string string
  | Get_Object_Tags string string
  | List_Objects string string bool

record storage =
  buckets :: "string list"
  objects :: "((string \<times> string) \<times> stored) list"
  files :: "string \<rightharpoonup> string"

record world =
  script :: "exn option list"
  trace :: "(call \<times> exn option) list"
  uuid_count :: nat
  disk :: storage

definition raised_by :: "'a outcome \<Rightarrow> exn option" where
  "raised_by r = (case r of Inl e \<Rightarrow> Some e | Inr _ \<Rightarrow> None)"

definition ext_call :: "call \<Rightarrow> (storage \<Rightarrow> 'a outcome \<times> storage) \<Rightarrow> world \<Rightarrow> 'a outcome \<times> world" where
  \<comment> \<open>one call of the client: the scripted fault if there is one, the reference store otherwise\<close>
  "ext_call c ideal w =
     (case script w of
        Some e # fs \<Rightarrow> (Inl e, w\<lparr>script := fs, trace := trace w @ [(c, Some e)]\<rparr>)
      | _ \<Rightarrow>
         (case ideal (disk w) of
            (r, s) \<Rightarrow> (r, w\<lparr>script := tl (script w), trace := trace w @ [(c, raised_by r)],
                           disk := s\<rparr>)))"

definition no_bucket :: "string \<Rightarrow> storage \<Rightarrow> bool" where
  "no_bucket b s \<longleftrightarrow> b \<notin> set (buckets s)"

definition describe :: "string \<Rightarrow> string \<Rightarrow> minio_object" where
  "describe b n = \<lparr>bucket_name = b, object_name = n, is_dir = False\<rparr>"

definition names_under :: "string \<Rightarrow> string \<Rightarrow> storage \<Rightarrow> string list" where
  "names_under b p s = filter (prefix p) (map snd (filter (\<lambda>k. fst k = b) (map fst (objects s))))"

definition child_of :: "string \<Rightarrow> string \<Rightarrow> string \<Rightarrow> minio_object" where
  \<comment> \<open>the entry of a non-recursive listing that stands for the object name \<open>n\<close>\<close>
  "child_of b p n =
     (let rest = drop (length p) n
      in if CHR ''/'' \<in> set rest
         then \<lparr>bucket_name = b,
               object_name = p @ takeWhile (\<lambda>c. c \<noteq> CHR ''/'') rest @ ''/'',
               is_dir = True\<rparr>
         else describe b n)"

definition Minio_new :: "string \<Rightarrow> string \<Rightarrow> string \<Rightarrow> bool \<Rightarrow> world \<Rightarrow> minio outcome \<times> world" where
  "Minio_new ak sk ep sec = ext_call (New_Minio ak sk ep sec) (\<lambda>s. (Inr (Minio ak sk ep sec), s))"

definition bucket_exists :: "minio \<Rightarrow> string \<Rightarrow> world \<Rightarrow> bool outcome \<times> world" where
  "bucket_exists cl b = ext_call (Bucket_Exists b) (\<lambda>s. (Inr (\<not> no_bucket b s), s))"

definition make_bucket :: "minio \<Rightarrow> string \<Rightarrow> world \<Rightarrow> unit outcome \<times> world" where
  "make_bucket cl b = ext_call (Make_Bucket b)
     (\<lambda>s. if no_bucket b s then (Inr (), s\<lparr>buckets := buckets s @ [b]\<rparr>)
          else (Inl (S3Error ''BucketAlreadyOwnedByYou''), s))"

definition fput_object ::
  "minio \<Rightarrow> string \<Rightarrow> string \<Rightarrow> string \<Rightarrow> string \<Rightarrow> tags option \<Rightarrow> world \<Rightarrow> unit outcome \<times> world" where
  "fput_object cl b n fp ct tgs = ext_call (FPut_Object b n fp ct tgs)
     (\<lambda>s. case files s fp of
            None \<Rightarrow> (Inl (FileNotFoundError fp), s)
          | Some bytes \<Rightarrow>
              if no_bucket b s then (Inl (S3Error ''NoSuchBucket''), s)
              else (Inr (), s\<lparr>objects := AList.update (b, n)
                      \<lparr>payload = bytes, content_type = ct, tagset = tgs\<rparr> (objects s)\<rparr>))"

definition fget_object ::
  "minio \<Rightarrow> string \<Rightarrow> string \<Rightarrow> string \<Rightarrow> world \<Rightarrow> minio_object outcome \<times> world" where
  "fget_object cl b n fp = ext_call (FGet_Object b n fp)
     (\<lambda>s. if no_bucket b s then (Inl (S3Error ''NoSuchBucket''), s)
          else case map_of (objects s) (b, n) of
                 None \<Rightarrow> (Inl (S3Error ''NoSuchKey''), s)
               | Some ob \<Rightarrow> (Inr (describe b n), s\<lparr>files := (files s)(fp \<mapsto> payload ob)\<rparr>))"

definition stat_object :: "minio \<Rightarrow> string \<Rightarrow> string \<Rightarrow> world \<Rightarrow> minio_object outcome \<times> world" where
  "stat_object cl b n = ext_call (Stat_Object b n)
     (\<lambda>s. if no_bucket b s then (Inl (S3Error ''NoSuchBucket''), s)
          else case map_of (objects s) (b, n) of
                 None \<Rightarrow> (Inl (S3Error ''NoSuchKey''), s)
               | Some ob \<Rightarrow> (Inr (describe b n), s))"

definition remove_object :: "minio \<Rightarrow> string \<Rightarrow> string \<Rightarrow> world \<Rightarrow> unit outcome \<times> world" where
  "remove_object cl b n = ext_call (Remove_Object b n)
     (\<lambda>s. if no_bucket b s then (Inl (S3Error ''NoSuchBucket''), s)
          else (Inr (), s\<lparr>objects := AList.delete (b, n) (objects s)\<rparr>))"

definition get_object_tags :: "minio \<Rightarrow> string \<Rightarrow> string \<Rightarrow> world \<Rightarrow> tags option outcome \<times> world" where
  "get_object_tags cl b n = ext_call (Get_Object_Tags b n)
     (\<lambda>s. if no_bucket b s then (Inl (S3Error ''NoSuchBucket''), s)
          else case map_of (objects s) (b, n) of
                 None \<Rightarrow> (Inl (S3Error ''NoSuchKey''), s)
               | Some ob \<Rightarrow> (Inr (tagset ob), s))"

definition list_objects ::
  "minio \<Rightarrow> string \<Rightarrow> string \<Rightarrow> bool \<Rightarrow> world \<Rightarrow> cursor outcome \<times> world" where
  \<comment> \<open>a generator function: the call only builds the cursor\<close>
  "list_objects cl b p recursive w = (Inr (Unsent b p recursive), w)"

definition listing :: "string \<Rightarrow> string \<Rightarrow> bool \<Rightarrow> storage \<Rightarrow> minio_object list" where
  "listing b p recursive s =
     (if recursive then map (describe b) (names_under b p s)
      else remdups (map (child_of b p) (names_under b p s)))"

definition list_request ::
  "string \<Rightarrow> string \<Rightarrow> bool \<Rightarrow> world \<Rightarrow> minio_object list outcome \<times> world" where
  \<comment> \<open>the first request of a listing\<close>
  "list_request b p recursive = ext_call (List_Objects b p recursive)
     (\<lambda>s. if no_bucket b s then (Inl (S3Error ''NoSuchBucket''), s)
          else (Inr (listing b p recursive s), s))"

definition page_request :: "string \<Rightarrow> string \<Rightarrow> bool \<Rightarrow> world \<Rightarrow> unit outcome \<times> world" where
  \<comment> \<open>the request for a further page of a listing\<close>
  "page_request b p recursive = ext_call (List_Objects b p recursive) (\<lambda>s. (Inr (), s))"

fun cursor_next ::
  "'v env \<Rightarrow> cursor \<Rightarrow> world \<Rightarrow> minio_object option outcome \<times> cursor \<times> world" where
  \<comment> \<open>one step of the iteration: \<open>Inr None\<close> when the cursor is exhausted\<close>
  "cursor_next L (Unsent b p r) w =
     (case list_request b p r w of
        (Inl e, w1) \<Rightarrow> (Inl e, Open b p r 0 [], w1)
      | (Inr [], w1) \<Rightarrow> (Inr None, Open b p r 0 [], w1)
      | (Inr (ob # obs), w1) \<Rightarrow> (Inr (Some ob), Open b p r (page_size L - 1) obs, w1))"
| "cursor_next L (Open b p r k []) w = (Inr None, Open b p r k [], w)"
| "cursor_next L (Open b p r (Suc k) (ob # obs)) w = (Inr (Some ob), Open b p r k obs, w)"
| "cursor_next L (Open b p r 0 (ob # obs)) w =
     (case page_request b p r w of
        (Inl e, w1) \<Rightarrow> (Inl e, Open b p r 0 [], w1)
      | (Inr _, w1) \<Rightarrow> (Inr (Some ob), Open b p r (page_size L - 1) obs, w1))"

section \<open>Local files\<close>

text \<open>
  The object store writes the serialized value to a file of the temporary folder, named by
  a fresh identifier, and removes it afterwards. Opening a file for writing creates it
  empty, so a failing \<^verbatim>\<open>pickle.dump\<close> leaves an empty file behind; reading or unlinking a
  file that does not exist raises \<^verbatim>\<open>FileNotFoundError\<close>.
\<close>

definition set_file :: "string \<Rightarrow> string option \<Rightarrow> world \<Rightarrow> world" where
  "set_file fp c w = w\<lparr>disk := (disk w)\<lparr>files := (files (disk w))(fp := c)\<rparr>\<rparr>"

definition temp_path :: "'v env \<Rightarrow> world \<Rightarrow> string \<times> world" where
  \<comment> \<open>\<^verbatim>\<open>temp_folder / f"{uuid.uuid4()}.pickle"\<close>\<close>
  "temp_path L w =
     (path_str L (temp_folder L) (uuid4 L (uuid_count w) @ ''.pickle''),
      w\<lparr>uuid_count := Suc (uuid_count w)\<rparr>)"

definition dump_to :: "'v env \<Rightarrow> 'v \<Rightarrow> string \<Rightarrow> world \<Rightarrow> unit outcome \<times> world" where
  \<comment> \<open>\<^verbatim>\<open>with filepath.open("wb") as f: pickle.dump(obj, f)\<close>\<close>
  "dump_to L obj fp w =
     (case pickle_dumps L obj of
        Inl e \<Rightarrow> (Inl e, set_file fp (Some []) w)
      | Inr bytes \<Rightarrow> (Inr (), set_file fp (Some bytes) w))"

definition load_from :: "'v env \<Rightarrow> string \<Rightarrow> world \<Rightarrow> 'v outcome" where
  \<comment> \<open>\<^verbatim>\<open>with filepath.open("rb") as f: result = pickle.load(f)\<close>\<close>
  "load_from L fp w =
     (case files (disk w) fp of
        None \<Rightarrow> Inl (FileNotFoundError fp)
      | Some bytes \<Rightarrow> pickle_loads L bytes)"

definition unlink :: "string \<Rightarrow> world \<Rightarrow> unit outcome \<times> world" where
  "unlink fp w =
     (case files (disk w) fp of
        None \<Rightarrow> (Inl (FileNotFoundError fp), w)
      | Some _ \<Rightarrow> (Inr (), set_file fp None w))"

section \<open>The operations of \<^verbatim>\<open>minio_pomes.py\<close>\<close>

text \<open>
  The caller's list \<^verbatim>\<open>errors\<close> is mutated in place, so every operation takes the list and
  the world and returns its result with the new list and the new world. An operation whose
  body can let an exception escape returns an \<open>outcome\<close>, with \<open>Inl\<close> for the escaping
  exception; the others catch every exception of the calls they make and return a plain
  value. A loop over a cursor is a recursive function on the cursor, which ends because a
  cursor that has sent its request holds finitely many descriptors. \<^verbatim>\<open>_s3_log\<close> only writes
  to the optional logger and is left out.
\<close>

text \<open>
  Modelled from the spec: \<^verbatim>\<open>_s3_except_msg\<close> of \<^verbatim>\<open>s3_common.py\<close>, which is not among the
  sources. The spec (section 7) says that a caught exception is "re-rendered as a
  descriptive string and appended to the caller-supplied error list".
\<close>

definition s3_except_msg :: "'v env \<Rightarrow> string list \<Rightarrow> exn \<Rightarrow> string list" where
  "s3_except_msg L errors e = errors @ [except_text L e ''minio'']"

definition access :: "'v env \<Rightarrow> string list \<Rightarrow> world \<Rightarrow> minio option \<times> string list \<times> world" where
  "access L errors w =
     (case Minio_new (cfg_access_key L) (cfg_secret_key L) (cfg_endpoint L) (cfg_secure L) w of
        (Inr cl, w1) \<Rightarrow> (Some cl, errors, w1)
      | (Inl e, w1) \<Rightarrow> (None, s3_except_msg L errors e, w1))"

definition client_or_access ::
  "'v env \<Rightarrow> string list \<Rightarrow> minio option \<Rightarrow> world \<Rightarrow> minio option \<times> string list \<times> world" where
  \<comment> \<open>\<^verbatim>\<open>client or _access(errors=errors, logger=logger)\<close>\<close>
  "client_or_access L errors client w =
     (case client of Some cl \<Rightarrow> (Some cl, errors, w) | None \<Rightarrow> access L errors w)"

definition startup :: "'v env \<Rightarrow> string list \<Rightarrow> string \<Rightarrow> world \<Rightarrow> bool \<times> string list \<times> world" where
  "startup L errors bucket w =
     (case access L errors w of
        (None, errors1, w1) \<Rightarrow> (False, errors1, w1)
      | (Some cl, errors1, w1) \<Rightarrow>
          (case bucket_exists cl bucket w1 of
             (Inl e, w2) \<Rightarrow> (False, s3_except_msg L errors1 e, w2)
           | (Inr True, w2) \<Rightarrow> (True, errors1, w2)
           | (Inr False, w2) \<Rightarrow>
               (case make_bucket cl bucket w2 of
                  (Inl e, w3) \<Rightarrow> (False, s3_except_msg L errors1 e, w3)
                | (Inr _, w3) \<Rightarrow> (True, errors1, w3))))"

definition doc_tags_of :: "'v env \<Rightarrow> tags option \<Rightarrow> tags option" where
  \<comment> \<open>the \<^verbatim>\<open>Tags\<close> built from the caller's dict: \<^verbatim>\<open>doc_tags[key] = unidecode(value)\<close>\<close>
  "doc_tags_of L tgs =
     (case tgs of
        None \<Rightarrow> None
      | Some items \<Rightarrow>
          if length items = 0 then None
          else Some (fold (\<lambda>(key, val) d. AList.update key (unidecode L val) d) items []))"

definition file_store ::
  "'v env \<Rightarrow> string list \<Rightarrow> string \<Rightarrow> string \<Rightarrow> string \<Rightarrow> string \<Rightarrow> string \<Rightarrow> tags option \<Rightarrow>
   minio option \<Rightarrow> world \<Rightarrow> bool \<times> string list \<times> world" where
  "file_store L errors bucket basepath identifier filepath mimetype tgs client w =
     (case client_or_access L errors client w of
        (None, errors1, w1) \<Rightarrow> (False, errors1, w1)
      | (Some cl, errors1, w1) \<Rightarrow>
          (case fput_object cl bucket (path_str L basepath identifier) filepath mimetype
                  (doc_tags_of L tgs) w1 of
             (Inr _, w2) \<Rightarrow> (True, errors1, w2)
           | (Inl e, w2) \<Rightarrow> (False, s3_except_msg L errors1 e, w2)))"

definition file_retrieve ::
  "'v env \<Rightarrow> string list \<Rightarrow> string \<Rightarrow> string \<Rightarrow> string \<Rightarrow> string \<Rightarrow> minio option \<Rightarrow> world \<Rightarrow>
   minio_object option \<times> string list \<times> world" where
  "file_retrieve L errors bucket basepath identifier filepath client w =
     (case client_or_access L errors client w of
        (None, errors1, w1) \<Rightarrow> (None, errors1, w1)
      | (Some cl, errors1, w1) \<Rightarrow>
          (case fget_object cl bucket (path_str L basepath identifier) filepath w1 of
             (Inr ob, w2) \<Rightarrow> (Some ob, errors1, w2)
           | (Inl e, w2) \<Rightarrow>
               (None, if reported e then s3_except_msg L errors1 e else errors1, w2)))"

definition object_stat ::
  "'v env \<Rightarrow> string list \<Rightarrow> string \<Rightarrow> string \<Rightarrow> string \<Rightarrow> minio option \<Rightarrow> world \<Rightarrow>
   minio_object option \<times> string list \<times> world" where
  "object_stat L errors bucket basepath identifier client w =
     (case client_or_access L errors client w of
        (None, errors1, w1) \<Rightarrow> (None, errors1, w1)
      | (Some cl, errors1, w1) \<Rightarrow>
          (case stat_object cl bucket (path_str L basepath identifier) w1 of
             (Inr ob, w2) \<Rightarrow> (Some ob, errors1, w2)
           | (Inl e, w2) \<Rightarrow>
               (None, if reported e then s3_except_msg L errors1 e else errors1, w2)))"

definition objects_list ::
  "'v env \<Rightarrow> string list \<Rightarrow> string \<Rightarrow> string \<Rightarrow> bool \<Rightarrow> minio option \<Rightarrow> world \<Rightarrow>
   cursor option \<times> string list \<times> world" where
  "objects_list L errors bucket basepath recursive client w =
     (case client_or_access L errors client w of
        (None, errors1, w1) \<Rightarrow> (None, errors1, w1)
      | (Some cl, errors1, w1) \<Rightarrow>
          (case list_objects cl bucket basepath recursive w1 of
             (Inr objs, w2) \<Rightarrow> (Some objs, errors1, w2)
           | (Inl e, w2) \<Rightarrow> (None, s3_except_msg L errors1 e, w2)))"

definition py_next ::
  "'v env \<Rightarrow> cursor option \<Rightarrow> world \<Rightarrow> minio_object option outcome \<times> world" where
  \<comment> \<open>\<^verbatim>\<open>next(objs, None)\<close>: \<^verbatim>\<open>None\<close> is not an iterator, and a cursor may raise\<close>
  "py_next L objs w =
     (case objs of
        None \<Rightarrow> (Inl (TypeError ''NoneType object is not an iterator''), w)
      | Some cur \<Rightarrow> (case cursor_next L cur w of (r, cur', w') \<Rightarrow> (r, w')))"

definition path_div :: "'v env \<Rightarrow> string \<Rightarrow> string option \<Rightarrow> string outcome" where
  \<comment> \<open>\<^verbatim>\<open>Path(basepath) / identifier\<close>: a path cannot be joined with \<^verbatim>\<open>None\<close>\<close>
  "path_div L basepath identifier =
     (case identifier of
        None \<Rightarrow> Inl (TypeError ''unsupported operand type(s) for /: PosixPath and NoneType'')
      | Some name \<Rightarrow> Inr (path_str L basepath name))"

definition object_exists ::
  "'v env \<Rightarrow> string list \<Rightarrow> string \<Rightarrow> string \<Rightarrow> string option \<Rightarrow> minio option \<Rightarrow> world \<Rightarrow>
   bool outcome \<times> string list \<times> world" where
  "object_exists L errors bucket basepath identifier client w =
     (case client_or_access L errors client w of
        (None, errors1, w1) \<Rightarrow> (Inr False, errors1, w1)
      | (Some cl, errors1, w1) \<Rightarrow>
          (case identifier of
             None \<Rightarrow>
               (case objects_list L errors1 bucket basepath False (Some cl) w1 of
                  (objs, errors2, w2) \<Rightarrow>
                    (case py_next L objs w2 of
                       (Inl e, w3) \<Rightarrow> (Inl e, errors2, w3)
                     | (Inr first, w3) \<Rightarrow>
                         (case path_div L basepath identifier of
                            Inl e \<Rightarrow> (Inl e, errors2, w3)
                          | Inr remotepath \<Rightarrow> (Inr (first = None), errors2, w3))))
           | Some name \<Rightarrow>
               (case object_stat L errors1 bucket basepath name (Some cl) w1 of
                  (st, errors2, w2) \<Rightarrow>
                    (case path_div L basepath identifier of
                       Inl e \<Rightarrow> (Inl e, errors2, w2)
                     | Inr remotepath \<Rightarrow> (Inr (st \<noteq> None), errors2, w2)))))"

definition object_store ::
  "'v env \<Rightarrow> string list \<Rightarrow> string \<Rightarrow> string \<Rightarrow> string \<Rightarrow> 'v \<Rightarrow> tags option \<Rightarrow> minio option \<Rightarrow>
   world \<Rightarrow> bool outcome \<times> string list \<times> world" where
  "object_store L errors bucket basepath identifier obj tgs client w =
     (case client_or_access L errors client w of
        (None, errors1, w1) \<Rightarrow> (Inr False, errors1, w1)
      | (Some cl, errors1, w1) \<Rightarrow>
          (case temp_path L w1 of
             (filepath, w2) \<Rightarrow>
               (case dump_to L obj filepath w2 of
                  (Inl e, w3) \<Rightarrow> (Inl e, errors1, w3)
                | (Inr _, w3) \<Rightarrow>
                    (case file_store L [] bucket basepath identifier filepath
                            ''application/octet-stream'' tgs (Some cl) w3 of
                       (_, op_errors, w4) \<Rightarrow>
                         if op_errors \<noteq> [] then (Inr False, errors1 @ op_errors, w4)
                         else (case unlink filepath w4 of
                                 (Inl e, w5) \<Rightarrow> (Inl e, errors1, w5)
                               | (Inr _, w5) \<Rightarrow> (Inr True, errors1, w5))))))"

definition object_retrieve ::
  "'v env \<Rightarrow> string list \<Rightarrow> string \<Rightarrow> string \<Rightarrow> string \<Rightarrow> minio option \<Rightarrow> world \<Rightarrow>
   'v option outcome \<times> string list \<times> world" where
  "object_retrieve L errors bucket basepath identifier client w =
     (case client_or_access L errors client w of
        (None, errors1, w1) \<Rightarrow> (Inr None, errors1, w1)
      | (Some cl, errors1, w1) \<Rightarrow>
          (case temp_path L w1 of
             (filepath, w2) \<Rightarrow>
               (case file_retrieve L errors1 bucket basepath identifier filepath (Some cl) w2 of
                  (None, errors2, w3) \<Rightarrow> (Inr None, errors2, w3)
                | (Some st, errors2, w3) \<Rightarrow>
                    (case load_from L filepath w3 of
                       Inl e \<Rightarrow> (Inl e, errors2, w3)
                     | Inr v \<Rightarrow>
                         (case unlink filepath w3 of
                            (Inl e, w4) \<Rightarrow> (Inl e, errors2, w4)
                          | (Inr _, w4) \<Rightarrow> (Inr (Some v), errors2, w4))))))"

function remove_each ::
  "'v env \<Rightarrow> minio \<Rightarrow> string \<Rightarrow> cursor \<Rightarrow> string list \<Rightarrow> world \<Rightarrow>
   unit outcome \<times> string list \<times> world" where
  \<comment> \<open>the loop \<^verbatim>\<open>for obj in objs\<close> of \<^verbatim>\<open>__folder_delete\<close>: advancing the cursor is outside
      the \<^verbatim>\<open>try\<close>, so what the cursor raises escapes\<close>
  "remove_each L cl bucket cur errors w =
     (case cursor_next L cur w of
        (Inl e, cur', w1) \<Rightarrow> (Inl e, errors, w1)
      | (Inr None, cur', w1) \<Rightarrow> (Inr (), errors, w1)
      | (Inr (Some ob), cur', w1) \<Rightarrow>
          (case remove_object cl bucket (object_name ob) w1 of
             (Inr _, w2) \<Rightarrow> remove_each L cl bucket cur' errors w2
           | (Inl e, w2) \<Rightarrow>
               remove_each L cl bucket cur'
                 (if reported e then s3_except_msg L errors e else errors) w2))"
  by pat_completeness auto

definition cursor_rank :: "cursor \<Rightarrow> nat \<times> nat" where
  \<comment> \<open>what decreases when a cursor yields a descriptor\<close>
  "cursor_rank cur = (case cur of Unsent b p r \<Rightarrow> (1, 0) | Open b p r k obs \<Rightarrow> (0, length obs))"

termination remove_each
  by (relation "inv_image (less_than <*lex*> less_than) (\<lambda>(L, cl, bucket, cur, errors, w). cursor_rank cur)")
     (auto simp: cursor_rank_def elim!: cursor_next.elims [OF sym]
        split: prod.splits sum.splits list.splits)

declare remove_each.simps [simp del]

definition folder_delete ::
  "'v env \<Rightarrow> string list \<Rightarrow> string \<Rightarrow> string \<Rightarrow> minio \<Rightarrow> world \<Rightarrow>
   unit outcome \<times> string list \<times> world" where
  \<comment> \<open>the listing is requested without the client, so \<^verbatim>\<open>_objects_list\<close> obtains a new one;
      an iterator is true whatever it yields, so \<^verbatim>\<open>if objs\<close> only tests for \<^verbatim>\<open>None\<close>\<close>
  "folder_delete L errors bucket basepath client w =
     (case objects_list L errors bucket basepath True None w of
        (None, errors1, w1) \<Rightarrow> (Inr (), errors1, w1)
      | (Some objs, errors1, w1) \<Rightarrow> remove_each L client bucket objs errors1 w1)"

definition object_delete ::
  "'v env \<Rightarrow> string list \<Rightarrow> string \<Rightarrow> string \<Rightarrow> string option \<Rightarrow> minio option \<Rightarrow> world \<Rightarrow>
   bool outcome \<times> string list \<times> world" where
  "object_delete L errors bucket basepath identifier client w =
     (case client_or_access L errors client w of
        (None, errors1, w1) \<Rightarrow> (Inr False, errors1, w1)
      | (Some cl, errors1, w1) \<Rightarrow>
          (case identifier of
             None \<Rightarrow>
               (case folder_delete L errors1 bucket basepath cl w1 of
                  (Inl e, errors2, w2) \<Rightarrow> (Inl e, errors2, w2)
                | (Inr _, errors2, w2) \<Rightarrow> (Inr False, errors2, w2))
           | Some name \<Rightarrow>
               (case remove_object cl bucket (path_str L basepath name) w1 of
                  (Inr _, w2) \<Rightarrow> (Inr True, errors1, w2)
                | (Inl e, w2) \<Rightarrow>
                    (Inr False, if reported e then s3_except_msg L errors1 e else errors1,
                     w2))))"

definition copy_tags :: "tags \<Rightarrow> tags" where
  \<comment> \<open>\<^verbatim>\<open>result = {}\<close>, then \<^verbatim>\<open>result[key] = value\<close> for each item\<close>
  "copy_tags items = fold (\<lambda>(key, val) d. AList.update key val d) items []"

definition object_tags_retrieve ::
  "'v env \<Rightarrow> string list \<Rightarrow> string \<Rightarrow> string \<Rightarrow> string \<Rightarrow> minio option \<Rightarrow> world \<Rightarrow>
   tags option \<times> string list \<times> world" where
  "object_tags_retrieve L errors bucket basepath identifier client w =
     (case client_or_access L errors client w of
        (None, errors1, w1) \<Rightarrow> (None, errors1, w1)
      | (Some cl, errors1, w1) \<Rightarrow>
          (case get_object_tags cl bucket (path_str L basepath identifier) w1 of
             (Inr tgs, w2) \<Rightarrow>
               (case tgs of
                  None \<Rightarrow> (None, errors1, w2)
                | Some items \<Rightarrow>
                    if length items > 0 then (Some (copy_tags items), errors1, w2)
                    else (None, errors1, w2))
           | (Inl e, w2) \<Rightarrow>
               (None, if reported e then s3_except_msg L errors1 e else errors1, w2)))"

section \<open>Notions used in the statements\<close>

text \<open>
  The calls that an operation adds to the trace are the ones after the calls already there;
  they are quiet when none of them raised. An operation lets the error list grow when the
  list it leaves has the list it was given as a prefix, and is that same list when the calls
  were quiet. Among the calls of a traversal the remove calls are told from the listing
  requests: the errors of a deletion are the messages of the remove calls that raised an
  exception whose code is not \<^verbatim>\<open>NoSuchKey\<close>, and the listing failure is the exception of the
  first listing request that raised, if there is one. The snapshot of a cursor is the
  sequence of the descriptors it has still to yield. A world is free of faults when its
  script schedules none, so that every call is answered by the reference store.
\<close>

definition quiet :: "(call \<times> exn option) list \<Rightarrow> bool" where
  "quiet cs = list_all (\<lambda>p. snd p = None) cs"

definition new_calls :: "world \<Rightarrow> world \<Rightarrow> (call \<times> exn option) list" where
  "new_calls w w' = drop (length (trace w)) (trace w')"

definition grows :: "string list \<Rightarrow> world \<Rightarrow> string list \<Rightarrow> world \<Rightarrow> bool" where
  "grows errors w errors' w' \<longleftrightarrow>
     prefix errors errors' \<and> prefix (trace w) (trace w') \<and>
     (quiet (new_calls w w') \<longrightarrow> errors' = errors)"

definition is_remove :: "call \<Rightarrow> bool" where
  "is_remove c = (case c of Remove_Object b n \<Rightarrow> True | _ \<Rightarrow> False)"

definition is_listing :: "call \<Rightarrow> bool" where
  "is_listing c = (case c of List_Objects b p r \<Rightarrow> True | _ \<Rightarrow> False)"

definition remove_calls :: "(call \<times> exn option) list \<Rightarrow> (call \<times> exn option) list" where
  "remove_calls cs = filter (\<lambda>p. is_remove (fst p)) cs"

definition delete_errors :: "'v env \<Rightarrow> (call \<times> exn option) list \<Rightarrow> string list" where
  "delete_errors L cs =
     [except_text L e ''minio''. (c, Some e) \<leftarrow> remove_calls cs, exn_code e \<noteq> Some ''NoSuchKey'']"

definition listing_failure :: "(call \<times> exn option) list \<Rightarrow> exn option" where
  "listing_failure cs =
     (case filter (\<lambda>p. is_listing (fst p) \<and> snd p \<noteq> None) cs of [] \<Rightarrow> None | p # ps \<Rightarrow> snd p)"

definition snapshot :: "cursor \<Rightarrow> world \<Rightarrow> minio_object list" where
  "snapshot cur w = (case cur of Unsent b p r \<Rightarrow> listing b p r (disk w) | Open b p r k obs \<Rightarrow> obs)"

definition fault_free :: "world \<Rightarrow> bool" where
  "fault_free w \<longleftrightarrow> list_all (\<lambda>f. f = None) (script w)"

definition has_bucket :: "string \<Rightarrow> world \<Rightarrow> bool" where
  "has_bucket b w \<longleftrightarrow> b \<in> set (buckets (disk w))"

definition strip_values :: "'v env \<Rightarrow> tags \<Rightarrow> tags" where
  "strip_values L items = map (\<lambda>(key, val). (key, unidecode L val)) items"

definition attached_tags :: "'v env \<Rightarrow> tags option \<Rightarrow> tags option" where
  "attached_tags L tgs =
     (case tgs of None \<Rightarrow> None | Some [] \<Rightarrow> None | Some items \<Rightarrow> Some (strip_values L items))"

section \<open>A configuration and a store for the examples\<close>

text \<open>
  The examples run in a bucket \<^verbatim>\<open>docs\<close> with three objects under \<^verbatim>\<open>reports/\<close> and one local
  file; a listing is answered in pages of two descriptors. Paths are joined with a slash,
  \<open>unidecode\<close> turns the letter e with an acute accent (code point 233) into a plain e, and an
  exception is rendered as its class and its text. The values are strings, instances of a
  class that does not define equality, which are equal only to themselves and so are named
  by their identity, and a lambda. A string is serialized to the letter s followed by the
  string. An instance is serialized to the letter o, and reading that back builds a new
  instance, with the identity 0. Serializing a lambda raises.
\<close>

datatype pyval = PyStr string | PyObject nat | PyLambda

definition demo_env :: "pyval env" where
  "demo_env =
     \<lparr>cfg_access_key = ''minio'', cfg_secret_key = ''secret'',
      cfg_endpoint = ''localhost:9000'', cfg_secure = False, temp_folder = ''/tmp'',
      path_str = (\<lambda>a b. a @ ''/'' @ b),
      unidecode = map (\<lambda>c. if c = CHR 0xE9 then CHR ''e'' else c),
      uuid4 = (\<lambda>n. replicate (Suc n) (CHR ''u'')),
      pickle_dumps = (\<lambda>v. case v of
                             PyStr s \<Rightarrow> Inr (CHR ''s'' # s)
                           | PyObject n \<Rightarrow> Inr ''o''
                           | PyLambda \<Rightarrow> Inl (Exn ''PicklingError'' None ''lambda'')),
      pickle_loads = (\<lambda>bytes. case bytes of
                                 [] \<Rightarrow> Inl (Exn ''EOFError'' None ''Ran out of input'')
                               | c # s \<Rightarrow>
                                   if c = CHR ''s'' then Inr (PyStr s)
                                   else if c = CHR ''o'' then Inr (PyObject 0)
                                   else Inl (Exn ''UnpicklingError'' None ''invalid load key'')),
      except_text = (\<lambda>e engine. exn_class e @ '': '' @ exn_text e),
      page_size = 2\<rparr>"

definition demo_client :: minio where
  "demo_client = Minio ''minio'' ''secret'' ''localhost:9000'' False"

definition demo_disk :: storage where
  "demo_disk =
     \<lparr>buckets = [''docs''],
      objects =
        [((''docs'', ''reports/2024/q1.pdf''),
          \<lparr>payload = ''q1'', content_type = ''application/pdf'', tagset = None\<rparr>),
         ((''docs'', ''reports/2024/q2.pdf''),
          \<lparr>payload = ''q2'', content_type = ''application/pdf'', tagset = None\<rparr>),
         ((''docs'', ''reports/readme.txt''),
          \<lparr>payload = ''read me'', content_type = ''text/plain'', tagset = None\<rparr>)],
      files = [''/in/q3.pdf'' \<mapsto> ''q3'']\<rparr>"

definition demo_world :: "exn option list \<Rightarrow> world" where
  "demo_world faults = \<lparr>script = faults, trace = [], uuid_count = 0, disk = demo_disk\<rparr>"

section \<open>Auxiliary lemmas\<close>

lemma ext_call_trace:
  "ext_call c f w = (r, w') \<Longrightarrow> trace w' = trace w @ [(c, raised_by r)]"
  by (auto simp: ext_call_def raised_by_def split: list.splits option.splits prod.splits)

lemma grows_refl: "grows errors w errors w"
  by (simp add: grows_def)

lemma grows_trans:
  assumes "grows e0 w0 e1 w1" and "grows e1 w1 e2 w2"
  shows "grows e0 w0 e2 w2"
proof -
  from assms obtain xs ys where t: "trace w1 = trace w0 @ xs" "trace w2 = trace w1 @ ys"
    by (auto simp: grows_def prefix_def)
  have q: "quiet (xs @ ys) \<Longrightarrow> quiet xs \<and> quiet ys" by (simp add: quiet_def)
  show ?thesis using assms t q
    by (auto simp: grows_def new_calls_def)
qed

lemma growsD:
  "grows errors w errors' w' \<Longrightarrow>
   \<exists>es cs. errors' = errors @ es \<and> trace w' = trace w @ cs \<and> (quiet cs \<longrightarrow> es = [])"
  by (auto simp: grows_def new_calls_def prefix_def)

lemma growsI:
  "errors' = errors @ es \<Longrightarrow> trace w' = trace w @ cs \<Longrightarrow> (quiet cs \<Longrightarrow> es = [])
   \<Longrightarrow> grows errors w errors' w'"
  by (auto simp: grows_def new_calls_def)

lemma quiet_simps [simp]:
  "quiet []" "quiet (xs @ ys) \<longleftrightarrow> quiet xs \<and> quiet ys" "quiet (x # xs) \<longleftrightarrow> snd x = None \<and> quiet xs"
  by (auto simp: quiet_def)

lemma raised_by_simps [simp]: "raised_by (Inl e) = Some e" "raised_by (Inr v) = None"
  by (simp_all add: raised_by_def)

lemmas client_defs = Minio_new_def bucket_exists_def make_bucket_def fput_object_def
  fget_object_def stat_object_def remove_object_def get_object_tags_def list_objects_def
  list_request_def page_request_def

lemma access_grows: "access L errors w = (r, errors', w') \<Longrightarrow> grows errors w errors' w'"
  unfolding access_def Minio_new_def s3_except_msg_def
  by (auto simp: grows_def new_calls_def split: prod.splits sum.splits dest!: ext_call_trace)

lemma access_Some: "access L errors w = (Some cl, errors', w') \<Longrightarrow> errors' = errors"
  unfolding access_def by (auto split: prod.splits sum.splits)

lemma client_or_access_grows:
  "client_or_access L errors client w = (r, errors', w') \<Longrightarrow> grows errors w errors' w'"
  unfolding client_or_access_def
  by (auto split: option.splits intro: access_grows grows_refl)

lemma client_or_access_Some:
  "client_or_access L errors client w = (Some cl, errors', w') \<Longrightarrow> errors' = errors"
  unfolding client_or_access_def by (auto split: option.splits dest: access_Some)

lemma startup_grows: "startup L errors bucket w = (r, errors', w') \<Longrightarrow> grows errors w errors' w'"
  unfolding startup_def bucket_exists_def make_bucket_def s3_except_msg_def
  by (auto simp: grows_def new_calls_def split: prod.splits sum.splits option.splits bool.splits
      dest!: access_grows [THEN growsD] ext_call_trace)

lemma file_store_grows:
  "file_store L errors bucket basepath identifier filepath mimetype tgs client w = (r, errors', w')
   \<Longrightarrow> grows errors w errors' w'"
  unfolding file_store_def fput_object_def s3_except_msg_def
  by (auto simp: grows_def new_calls_def split: prod.splits sum.splits option.splits
      dest!: client_or_access_grows [THEN growsD] ext_call_trace)

lemma file_retrieve_grows:
  "file_retrieve L errors bucket basepath identifier filepath client w = (r, errors', w')
   \<Longrightarrow> grows errors w errors' w'"
  unfolding file_retrieve_def fget_object_def s3_except_msg_def
  by (auto simp: grows_def new_calls_def split: prod.splits sum.splits option.splits if_splits
      dest!: client_or_access_grows [THEN growsD] ext_call_trace)

lemma object_stat_grows:
  "object_stat L errors bucket basepath identifier client w = (r, errors', w')
   \<Longrightarrow> grows errors w errors' w'"
  unfolding object_stat_def stat_object_def s3_except_msg_def
  by (auto simp: grows_def new_calls_def split: prod.splits sum.splits option.splits if_splits
      dest!: client_or_access_grows [THEN growsD] ext_call_trace)

lemma objects_list_grows:
  "objects_list L errors bucket basepath recursive client w = (r, errors', w')
   \<Longrightarrow> grows errors w errors' w'"
  unfolding objects_list_def list_objects_def
  by (auto split: prod.splits option.splits dest: client_or_access_grows)

lemma object_tags_retrieve_grows:
  "object_tags_retrieve L errors bucket basepath identifier client w = (r, errors', w')
   \<Longrightarrow> grows errors w errors' w'"
  unfolding object_tags_retrieve_def get_object_tags_def s3_except_msg_def
  by (auto simp: grows_def new_calls_def split: prod.splits sum.splits option.splits if_splits
      dest!: client_or_access_grows [THEN growsD] ext_call_trace)

lemma trace_set_file [simp]: "trace (set_file fp c w) = trace w"
  by (simp add: set_file_def)

lemma trace_temp_path: "temp_path L w = (fp, w') \<Longrightarrow> trace w' = trace w"
  by (auto simp: temp_path_def)

lemma trace_dump_to: "dump_to L obj fp w = (r, w') \<Longrightarrow> trace w' = trace w"
  by (auto simp: dump_to_def split: sum.splits)

lemma trace_unlink: "unlink fp w = (r, w') \<Longrightarrow> trace w' = trace w"
  by (auto simp: unlink_def split: option.splits)

lemma reported_iff: "reported e \<longleftrightarrow> exn_code e \<noteq> Some ''NoSuchKey''"
  by (auto simp: reported_def)

lemma ext_call_Inr: "ext_call c f w = (Inr v, w') \<Longrightarrow> f (disk w) = (Inr v, disk w')"
  by (auto simp: ext_call_def split: list.splits option.splits prod.splits)


lemma is_call_simps [simp]:
  "is_remove (Remove_Object b n)" "\<not> is_remove (List_Objects b p r)"
  "\<not> is_remove (New_Minio ak sk ep sec)"
  "is_listing (List_Objects b p r)" "\<not> is_listing (Remove_Object b n)"
  "\<not> is_listing (New_Minio ak sk ep sec)"
  by (simp_all add: is_remove_def is_listing_def)

lemma remove_calls_simps [simp]:
  "remove_calls [] = []"
  "remove_calls (xs @ ys) = remove_calls xs @ remove_calls ys"
  "remove_calls ((c, x) # cs) = (if is_remove c then (c, x) # remove_calls cs else remove_calls cs)"
  by (simp_all add: remove_calls_def)

lemma listing_failure_simps [simp]:
  "listing_failure [] = None"
  "listing_failure ((c, x) # cs) = (if is_listing c \<and> x \<noteq> None then x else listing_failure cs)"
  by (auto simp: listing_failure_def)

lemma listing_failure_append:
  "listing_failure (xs @ ys) =
     (case listing_failure xs of None \<Rightarrow> listing_failure ys | Some e \<Rightarrow> Some e)"
  by (induction xs) auto

lemma delete_errors_Nil [simp]: "delete_errors L [] = []"
  by (simp add: delete_errors_def)

lemma delete_errors_append [simp]:
  "delete_errors L (xs @ ys) = delete_errors L xs @ delete_errors L ys"
  by (simp add: delete_errors_def)

lemma delete_errors_Cons:
  "delete_errors L ((c, x) # cs) =
     (case x of
        None \<Rightarrow> []
      | Some e \<Rightarrow>
          if is_remove c \<and> exn_code e \<noteq> Some ''NoSuchKey'' then [except_text L e ''minio'']
          else [])
     @ delete_errors L cs"
  by (simp add: delete_errors_def split: option.splits)

lemma delete_errors_quiet: "quiet cs \<Longrightarrow> delete_errors L cs = []"
  by (induction cs) (auto simp: delete_errors_Cons)

lemma cursor_next_trace:
  assumes "cursor_next L cur w = (r, cur', w')"
  shows "\<exists>cs. trace w' = trace w @ cs \<and> remove_calls cs = [] \<and> delete_errors L cs = [] \<and>
              listing_failure cs = raised_by r \<and> list_all (\<lambda>p. is_listing (fst p)) cs"
  using assms
  by (induction L cur w rule: cursor_next.induct)
     (auto simp: list_request_def page_request_def delete_errors_Cons
        split: prod.splits sum.splits list.splits dest!: ext_call_trace)

lemma cursor_next_None: "cursor_next L cur w = (Inr None, cur', w') \<Longrightarrow> snapshot cur w = []"
  by (induction L cur w rule: cursor_next.induct)
     (auto simp: list_request_def page_request_def snapshot_def
        split: prod.splits sum.splits list.splits if_splits dest!: ext_call_Inr)

lemma cursor_next_Some:
  "cursor_next L cur w = (Inr (Some ob), cur', w') \<Longrightarrow> snapshot cur w = ob # snapshot cur' w''"
  by (induction L cur w rule: cursor_next.induct)
     (auto simp: list_request_def page_request_def snapshot_def
        split: prod.splits sum.splits list.splits if_splits dest!: ext_call_Inr)

lemma remove_each_Inl:
  "cursor_next L cur w = (Inl e, cur', w1) \<Longrightarrow>
   remove_each L cl bucket cur errors w = (Inl e, errors, w1)"
  by (subst remove_each.simps) simp

lemma remove_each_None:
  "cursor_next L cur w = (Inr None, cur', w1) \<Longrightarrow>
   remove_each L cl bucket cur errors w = (Inr (), errors, w1)"
  by (subst remove_each.simps) simp

lemma remove_each_Some:
  "cursor_next L cur w = (Inr (Some ob), cur', w1) \<Longrightarrow>
   remove_object cl bucket (object_name ob) w1 = (y, w2) \<Longrightarrow>
   remove_each L cl bucket cur errors w =
     remove_each L cl bucket cur'
       (case y of Inl e \<Rightarrow> if reported e then s3_except_msg L errors e else errors
                | Inr u \<Rightarrow> errors) w2"
  by (subst remove_each.simps) (simp split: sum.splits)

lemma remove_each_induct [consumes 0, case_names step]:
  assumes "\<And>L cl bucket cur errors w.
     (\<And>ob cur' w1 y w2.
         cursor_next L cur w = (Inr (Some ob), cur', w1) \<Longrightarrow>
         remove_object cl bucket (object_name ob) w1 = (y, w2) \<Longrightarrow>
         P L cl bucket cur'
           (case y of Inl e \<Rightarrow> if reported e then s3_except_msg L errors e else errors
                    | Inr u \<Rightarrow> errors) w2)
     \<Longrightarrow> P L cl bucket cur errors w"
  shows "P L cl bucket cur errors w"
proof (induction L cl bucket cur errors w rule: remove_each.induct)
  case (1 L cl bucket cur errors w)
  show ?case
  proof (rule assms)
    fix ob cur' w1 y w2
    assume n: "cursor_next L cur w = (Inr (Some ob), cur', w1)"
      and d: "remove_object cl bucket (object_name ob) w1 = (y, w2)"
    show "P L cl bucket cur'
           (case y of Inl e \<Rightarrow> if reported e then s3_except_msg L errors e else errors
                    | Inr u \<Rightarrow> errors) w2"
    proof (cases y)
      case (Inl e)
      from "1.IH"(1) [OF n [symmetric] refl refl refl d [unfolded Inl, symmetric] refl]
      show ?thesis using Inl by simp
    next
      case (Inr u)
      from "1.IH"(2) [OF n [symmetric] refl refl refl d [unfolded Inr, symmetric] refl]
      show ?thesis using Inr by simp
    qed
  qed
qed

lemma remove_each_run:
  "remove_each L cl bucket cur errors w = (r, errors', w') \<Longrightarrow>
   \<exists>cs. trace w' = trace w @ cs \<and> errors' = errors @ delete_errors L cs \<and>
        listing_failure cs = raised_by r \<and>
        list_all (\<lambda>p. is_remove (fst p) \<or> is_listing (fst p)) cs \<and>
        prefix (map fst (remove_calls cs))
          (map (\<lambda>ob. Remove_Object bucket (object_name ob)) (snapshot cur w)) \<and>
        (r = Inr () \<longrightarrow>
           map fst (remove_calls cs)
             = map (\<lambda>ob. Remove_Object bucket (object_name ob)) (snapshot cur w))"
proof (induction L cl bucket cur errors w arbitrary: r errors' w' rule: remove_each_induct)
  case (step L cl bucket cur errors w)
  obtain x cur1 w1 where n: "cursor_next L cur w = (x, cur1, w1)"
    by (cases "cursor_next L cur w")
  from cursor_next_trace [OF n] obtain c0 where
    c0: "trace w1 = trace w @ c0" "remove_calls c0 = []" "delete_errors L c0 = []"
        "listing_failure c0 = raised_by x" "list_all (\<lambda>p. is_listing (fst p)) c0" by blast
  then have c0': "list_all (\<lambda>p. is_remove (fst p) \<or> is_listing (fst p)) c0"
    by (simp add: list_all_iff)
  show ?case
  proof (cases x)
    case (Inl e)
    with n step.prems have "r = Inl e" "errors' = errors" "w' = w1"
      by (simp_all add: remove_each_Inl)
    with c0 c0' Inl show ?thesis by auto
  next
    case (Inr first)
    show ?thesis
    proof (cases first)
      case None
      with n Inr step.prems have "r = Inr ()" "errors' = errors" "w' = w1"
        by (simp_all add: remove_each_None)
      moreover have "snapshot cur w = []" using n Inr None by (auto dest: cursor_next_None)
      ultimately show ?thesis using c0 c0' Inr by auto
    next
      case (Some ob)
      obtain y w2 where d: "remove_object cl bucket (object_name ob) w1 = (y, w2)"
        by (cases "remove_object cl bucket (object_name ob) w1")
      let ?c = "(Remove_Object bucket (object_name ob), raised_by y)"
      let ?errs = "case y of Inl e \<Rightarrow> if reported e then s3_except_msg L errors e else errors
                           | Inr u \<Rightarrow> errors"
      have n': "cursor_next L cur w = (Inr (Some ob), cur1, w1)" using n Inr Some by simp
      have t2: "trace w2 = trace w1 @ [?c]"
        using d by (simp add: remove_object_def ext_call_trace)
      have s: "snapshot cur w = ob # snapshot cur1 w2" using n' by (rule cursor_next_Some)
      have "remove_each L cl bucket cur1 ?errs w2 = (r, errors', w')"
        using remove_each_Some [OF n' d] step.prems by simp
      from step.IH [OF n' d this] obtain cs where
        cs: "trace w' = trace w2 @ cs" "errors' = ?errs @ delete_errors L cs"
            "listing_failure cs = raised_by r"
            "prefix (map fst (remove_calls cs))
               (map (\<lambda>ob. Remove_Object bucket (object_name ob)) (snapshot cur1 w2))"
            "list_all (\<lambda>p. is_remove (fst p) \<or> is_listing (fst p)) cs"
            "r = Inr () \<longrightarrow> map fst (remove_calls cs)
               = map (\<lambda>ob. Remove_Object bucket (object_name ob)) (snapshot cur1 w2)"
        by blast
      have e: "?errs = errors @ delete_errors L [?c]"
        by (cases y) (simp_all add: delete_errors_Cons reported_def s3_except_msg_def)
      let ?cs = "c0 @ ?c # cs"
      have "trace w' = trace w @ ?cs" using cs(1) t2 c0(1) by simp
      moreover have "errors' = errors @ delete_errors L ?cs"
        using cs(2) e c0(3) delete_errors_append [of L "[?c]" cs] by simp
      moreover have "listing_failure ?cs = raised_by r"
        using cs(3) c0(4) Inr by (simp add: listing_failure_append)
      moreover have "prefix (map fst (remove_calls ?cs))
               (map (\<lambda>ob. Remove_Object bucket (object_name ob)) (snapshot cur w))"
        using cs(4) c0(2) s by simp
      moreover have "r = Inr () \<longrightarrow> map fst (remove_calls ?cs)
               = map (\<lambda>ob. Remove_Object bucket (object_name ob)) (snapshot cur w)"
        using cs(6) c0(2) s by simp
      moreover have "list_all (\<lambda>p. is_remove (fst p) \<or> is_listing (fst p)) ?cs"
        using cs(5) c0' by simp
      ultimately show ?thesis by blast
    qed
  qed
qed

lemma remove_each_grows:
  assumes "remove_each L cl bucket cur errors w = (r, errors', w')"
  shows "grows errors w errors' w'"
proof -
  from remove_each_run [OF assms] obtain cs where
    "trace w' = trace w @ cs" "errors' = errors @ delete_errors L cs" by blast
  then show ?thesis by (auto intro!: growsI dest: delete_errors_quiet)
qed




lemma objects_list_Some:
  "objects_list L errors bucket basepath recursive client w = (Some cur, errors', w') \<Longrightarrow>
   errors' = errors \<and> cur = Unsent bucket basepath recursive"
  unfolding objects_list_def list_objects_def
  by (auto split: prod.splits option.splits dest: client_or_access_Some)



lemma py_next_grows:
  assumes "py_next L objs w = (r, w')"
  shows "grows errors w errors w'"
proof -
  have "\<exists>cs. trace w' = trace w @ cs"
    using assms unfolding py_next_def
    by (auto split: option.splits prod.splits dest!: cursor_next_trace)
  then show ?thesis by (auto simp: grows_def)
qed

lemma folder_delete_grows:
  "folder_delete L errors bucket basepath cl w = (r, errors', w') \<Longrightarrow> grows errors w errors' w'"
  unfolding folder_delete_def
  by (auto split: prod.splits option.splits
      dest!: objects_list_grows remove_each_grows intro: grows_trans)

lemma object_delete_grows:
  "object_delete L errors bucket basepath identifier client w = (r, errors', w')
   \<Longrightarrow> grows errors w errors' w'"
proof -
  assume a: "object_delete L errors bucket basepath identifier client w = (r, errors', w')"
  obtain c errors1 w1 where o: "client_or_access L errors client w = (c, errors1, w1)"
    by (cases "client_or_access L errors client w")
  then have g1: "grows errors w errors1 w1" by (rule client_or_access_grows)
  show ?thesis
  proof (cases c)
    case None
    with a o g1 show ?thesis by (simp add: object_delete_def)
  next
    case (Some cl)
    show ?thesis
    proof (cases "identifier")
      case None
      with a o Some have "\<exists>x. folder_delete L errors1 bucket basepath cl w1 = (x, errors', w')"
        by (auto simp: object_delete_def split: prod.splits sum.splits)
      then obtain x where "folder_delete L errors1 bucket basepath cl w1 = (x, errors', w')" ..
      then have "grows errors1 w1 errors' w'" by (rule folder_delete_grows)
      with g1 show ?thesis by (rule grows_trans)
    next
      case (Some name)
      with a o \<open>c = Some cl\<close> have "grows errors1 w1 errors' w'"
        unfolding object_delete_def remove_object_def s3_except_msg_def
        by (auto simp: grows_def new_calls_def split: prod.splits sum.splits if_splits
            dest!: ext_call_trace)
      with g1 show ?thesis by (rule grows_trans)
    qed
  qed
qed

lemma object_exists_grows:
  "object_exists L errors bucket basepath identifier client w = (r, errors', w')
   \<Longrightarrow> grows errors w errors' w'"
proof -
  assume a: "object_exists L errors bucket basepath identifier client w = (r, errors', w')"
  obtain c errors1 w1 where o: "client_or_access L errors client w = (c, errors1, w1)"
    by (cases "client_or_access L errors client w")
  then have g1: "grows errors w errors1 w1" by (rule client_or_access_grows)
  show ?thesis
  proof (cases c)
    case None
    with a o g1 show ?thesis by (simp add: object_exists_def)
  next
    case (Some cl)
    have "grows errors1 w1 errors' w'"
    proof (cases "identifier")
      case None
      obtain objs errors2 w2 where
        l: "objects_list L errors1 bucket basepath False (Some cl) w1 = (objs, errors2, w2)"
        by (cases "objects_list L errors1 bucket basepath False (Some cl) w1")
      obtain x w3 where p: "py_next L objs w2 = (x, w3)" by (cases "py_next L objs w2")
      from a o \<open>c = Some cl\<close> None l p have "errors' = errors2" "w' = w3"
        by (auto simp: object_exists_def split: sum.splits)
      moreover have "grows errors1 w1 errors2 w2" using l by (rule objects_list_grows)
      moreover have "grows errors2 w2 errors2 w3" using p by (rule py_next_grows)
      ultimately show ?thesis by (auto intro: grows_trans)
    next
      case (Some name)
      with a o \<open>c = Some cl\<close> show ?thesis
        unfolding object_exists_def
        by (auto split: prod.splits sum.splits option.splits dest: object_stat_grows)
    qed
    with g1 show ?thesis by (rule grows_trans)
  qed
qed

lemma object_store_grows:
  "object_store L errors bucket basepath identifier obj tgs client w = (r, errors', w')
   \<Longrightarrow> grows errors w errors' w'"
proof -
  assume a: "object_store L errors bucket basepath identifier obj tgs client w = (r, errors', w')"
  obtain c errors1 w1 where o: "client_or_access L errors client w = (c, errors1, w1)"
    by (cases "client_or_access L errors client w")
  then have g1: "grows errors w errors1 w1" by (rule client_or_access_grows)
  show ?thesis
  proof (cases c)
    case None
    with a o g1 show ?thesis by (simp add: object_store_def)
  next
    case (Some cl)
    with a o have "grows errors1 w1 errors' w'"
      unfolding object_store_def
      by (auto simp: grows_def new_calls_def
          split: prod.splits sum.splits option.splits if_splits
          dest!: trace_temp_path trace_dump_to trace_unlink file_store_grows [THEN growsD])
    with g1 show ?thesis by (rule grows_trans)
  qed
qed

lemma object_retrieve_grows:
  "object_retrieve L errors bucket basepath identifier client w = (r, errors', w')
   \<Longrightarrow> grows errors w errors' w'"
proof -
  assume a: "object_retrieve L errors bucket basepath identifier client w = (r, errors', w')"
  obtain c errors1 w1 where o: "client_or_access L errors client w = (c, errors1, w1)"
    by (cases "client_or_access L errors client w")
  then have g1: "grows errors w errors1 w1" by (rule client_or_access_grows)
  show ?thesis
  proof (cases c)
    case None
    with a o g1 show ?thesis by (simp add: object_retrieve_def)
  next
    case (Some cl)
    with a o have "grows errors1 w1 errors' w'"
      unfolding object_retrieve_def
      by (auto simp: grows_def new_calls_def
          split: prod.splits sum.splits option.splits if_splits
          dest!: trace_temp_path trace_unlink file_retrieve_grows [THEN growsD])
    with g1 show ?thesis by (rule grows_trans)
  qed
qed

lemma ext_call_fault_free:
  assumes "fault_free w" and "f (disk w) = (r, s)"
  shows "\<exists>w'. ext_call c f w = (r, w') \<and> fault_free w' \<and> disk w' = s \<and>
              uuid_count w' = uuid_count w"
  using assms by (cases "script w") (auto simp: ext_call_def fault_free_def)

lemma access_fault_free:
  assumes "fault_free w"
  shows "\<exists>cl w1. access L errors w = (Some cl, errors, w1) \<and> fault_free w1 \<and>
                 disk w1 = disk w \<and> uuid_count w1 = uuid_count w"
proof -
  let ?c = "New_Minio (cfg_access_key L) (cfg_secret_key L) (cfg_endpoint L) (cfg_secure L)"
  let ?cl = "Minio (cfg_access_key L) (cfg_secret_key L) (cfg_endpoint L) (cfg_secure L)"
  from ext_call_fault_free [OF assms, of "\<lambda>s. (Inr ?cl, s)" "Inr ?cl" "disk w" ?c]
  obtain w1 where "ext_call ?c (\<lambda>s. (Inr ?cl, s)) w = (Inr ?cl, w1)" "fault_free w1"
    "disk w1 = disk w" "uuid_count w1 = uuid_count w" by auto
  then show ?thesis by (simp add: access_def Minio_new_def)
qed

lemma client_or_access_fault_free:
  assumes "fault_free w"
  shows "\<exists>cl w1. client_or_access L errors client w = (Some cl, errors, w1) \<and> fault_free w1 \<and>
                 disk w1 = disk w \<and> uuid_count w1 = uuid_count w"
  using assms access_fault_free [OF assms, of L errors]
  by (cases client) (auto simp: client_or_access_def)

lemma fold_update_distinct:
  "distinct (map fst items) \<Longrightarrow> set (map fst acc) \<inter> set (map fst items) = {} \<Longrightarrow>
   fold (\<lambda>(key, val) d. AList.update key (g val) d) items acc
     = acc @ map (\<lambda>(key, val). (key, g val)) items"
proof (induction items arbitrary: acc)
  case Nil
  then show ?case by simp
next
  case (Cons kv items)
  obtain k v where kv: "kv = (k, v)" by (cases kv)
  have u: "AList.update k (g v) acc = acc @ [(k, g v)]"
    using Cons.prems(2) kv by (induction acc) auto
  have "fold (\<lambda>(key, val) d. AList.update key (g val) d) items (acc @ [(k, g v)])
        = (acc @ [(k, g v)]) @ map (\<lambda>(key, val). (key, g val)) items"
    using Cons.prems kv by (intro Cons.IH) auto
  then show ?case using kv u by simp
qed

lemma doc_tags_of_distinct:
  "(\<forall>items. tgs = Some items \<longrightarrow> distinct (map fst items)) \<Longrightarrow>
   doc_tags_of L tgs = attached_tags L tgs"
  by (auto simp: doc_tags_of_def attached_tags_def strip_values_def fold_update_distinct
      split: option.splits list.splits)

lemma copy_tags_distinct: "distinct (map fst items) \<Longrightarrow> copy_tags items = items"
  using fold_update_distinct [of items "[]" id] by (simp add: copy_tags_def)

lemma fault_free_local [simp]:
  "fault_free (set_file fp c w) = fault_free w"
  "fault_free (w\<lparr>uuid_count := n\<rparr>) = fault_free w"
  by (simp_all add: fault_free_def set_file_def)

lemma has_bucket_local [simp]:
  "has_bucket b (set_file fp c w) = has_bucket b w"
  "has_bucket b (w\<lparr>uuid_count := n\<rparr>) = has_bucket b w"
  by (simp_all add: has_bucket_def set_file_def)

lemma disk_set_file [simp]:
  "files (disk (set_file fp c w)) = (files (disk w))(fp := c)"
  "objects (disk (set_file fp c w)) = objects (disk w)"
  "buckets (disk (set_file fp c w)) = buckets (disk w)"
  by (simp_all add: set_file_def)

lemma fput_object_frame:
  "fput_object cl b n fp ct tgs w = (r, w') \<Longrightarrow>
   files (disk w') = files (disk w) \<and> uuid_count w' = uuid_count w"
  by (auto simp: fput_object_def ext_call_def
      split: list.splits option.splits prod.splits if_splits)

lemma fput_object_stored:
  "fput_object cl b n fp ct tgs w = (Inr u, w') \<Longrightarrow>
   has_bucket b w' \<and>
   (\<exists>bytes. files (disk w) fp = Some bytes \<and>
      map_of (objects (disk w')) (b, n) = Some \<lparr>payload = bytes, content_type = ct, tagset = tgs\<rparr>)"
  by (auto simp: fput_object_def ext_call_def has_bucket_def no_bucket_def update_conv'
      split: list.splits option.splits prod.splits if_splits)


lemma file_store_True:
  assumes "file_store L errors bucket basepath identifier fp mt tgs client w = (True, errors', w')"
  shows "errors' = errors \<and> has_bucket bucket w' \<and>
         (\<exists>ob. map_of (objects (disk w')) (bucket, path_str L basepath identifier) = Some ob \<and>
               content_type ob = mt \<and> tagset ob = doc_tags_of L tgs)"
proof -
  from assms obtain cl errors1 w1 u where
    o: "client_or_access L errors client w = (Some cl, errors1, w1)" and
    p: "fput_object cl bucket (path_str L basepath identifier) fp mt (doc_tags_of L tgs) w1
          = (Inr u, w')" and e: "errors' = errors1"
    by (auto simp: file_store_def split: prod.splits option.splits sum.splits)
  from o have "errors1 = errors" by (rule client_or_access_Some)
  with e fput_object_stored [OF p] show ?thesis by auto
qed




lemma object_tags_retrieve_fault_free:
  assumes "fault_free w" and "has_bucket bucket w"
    and "map_of (objects (disk w)) (bucket, path_str L basepath identifier) = Some ob"
  shows "\<exists>w'. object_tags_retrieve L errors bucket basepath identifier client w =
           (case tagset ob of
              None \<Rightarrow> None
            | Some items \<Rightarrow> if length items > 0 then Some (copy_tags items) else None,
            errors, w')"
proof -
  from client_or_access_fault_free [OF assms(1), of L errors client]
  obtain cl w1 where o: "client_or_access L errors client w = (Some cl, errors, w1)"
    and f1: "fault_free w1" and d1: "disk w1 = disk w" by blast
  let ?n = "path_str L basepath identifier"
  have "\<exists>w'. get_object_tags cl bucket ?n w1 = (Inr (tagset ob), w') \<and>
             fault_free w' \<and> disk w' = disk w1 \<and> uuid_count w' = uuid_count w1"
    unfolding get_object_tags_def
    by (rule ext_call_fault_free [OF f1])
       (use assms d1 in \<open>simp add: has_bucket_def no_bucket_def\<close>)
  then obtain w2 where g: "get_object_tags cl bucket ?n w1 = (Inr (tagset ob), w2)" by blast
  show ?thesis using o g
    by (auto simp: object_tags_retrieve_def split: option.splits)
qed

lemma attached_tags_copy:
  assumes "\<forall>items. tgs = Some items \<longrightarrow> distinct (map fst items)"
  shows "(case attached_tags L tgs of
            None \<Rightarrow> None
          | Some items \<Rightarrow> if length items > 0 then Some (copy_tags items) else None)
         = attached_tags L tgs"
proof (cases "attached_tags L tgs")
  case None
  then show ?thesis by simp
next
  case (Some stripped)
  then obtain items where i: "tgs = Some items" "items \<noteq> []" "stripped = strip_values L items"
    by (auto simp: attached_tags_def split: option.splits list.splits)
  have k: "map fst (strip_values L items) = map fst items"
    by (simp add: strip_values_def case_prod_unfold comp_def)
  have "distinct (map fst stripped)" using assms i(1,3) k by simp
  moreover have "stripped \<noteq> []" using i(2,3) by (simp add: strip_values_def)
  ultimately have "distinct (map fst stripped)" "stripped \<noteq> []" by simp_all
  then show ?thesis using Some by (simp add: copy_tags_distinct)
qed

lemmas eval_defs =
  demo_env_def demo_client_def demo_disk_def demo_world_def
  S3Error_def FileNotFoundError_def TypeError_def reported_def raised_by_def ext_call_def
  no_bucket_def describe_def names_under_def child_of_def client_defs
  set_file_def temp_path_def dump_to_def load_from_def unlink_def s3_except_msg_def
  access_def client_or_access_def startup_def doc_tags_of_def file_store_def
  file_retrieve_def object_stat_def objects_list_def py_next_def path_div_def
  object_exists_def object_store_def object_retrieve_def folder_delete_def
  object_delete_def copy_tags_def object_tags_retrieve_def
  quiet_def new_calls_def grows_def delete_errors_def fault_free_def has_bucket_def
  strip_values_def attached_tags_def
  listing_def is_remove_def is_listing_def remove_calls_def listing_failure_def
  snapshot_def remove_each.simps

section \<open>The claims\<close>

subsection \<open>C1: the folder form of Exists\<close>

text \<open>
  C1 says that Exists with the identifier omitted returns true exactly when the
  non-recursive listing of the prefix yields a descriptor, and false for an empty prefix.
  The code does not do so. In the bucket \<^verbatim>\<open>docs\<close> the listing of \<^verbatim>\<open>reports/\<close> yields two
  descriptors and the listing of \<^verbatim>\<open>drafts/\<close> yields none; with a client at hand the
  operation returns neither true for the first nor false for the second, it raises
  \<^verbatim>\<open>TypeError\<close> at \<^verbatim>\<open>Path(basepath) / identifier\<close> in both.
\<close>

theorem object_exists_folder_failing_input:
  "fst (list_request ''docs'' ''reports/'' False (demo_world []))
     = Inr [\<lparr>bucket_name = ''docs'', object_name = ''reports/2024/'', is_dir = True\<rparr>,
            \<lparr>bucket_name = ''docs'', object_name = ''reports/readme.txt'', is_dir = False\<rparr>] \<and>
   fst (object_exists demo_env [] ''docs'' ''reports/'' None (Some demo_client) (demo_world []))
     = Inl (TypeError ''unsupported operand type(s) for /: PosixPath and NoneType'') \<and>
   fst (list_request ''docs'' ''drafts/'' False (demo_world [])) = Inr [] \<and>
   fst (object_exists demo_env [] ''docs'' ''drafts/'' None (Some demo_client) (demo_world []))
     = Inl (TypeError ''unsupported operand type(s) for /: PosixPath and NoneType'')"
  by (simp add: eval_defs)

subsection \<open>C2: deleting an object that is not there\<close>

text \<open>
  C2: when the remove call of the single-object Delete raises an exception with code
  \<^verbatim>\<open>NoSuchKey\<close>, nothing is appended to the caller's error list and the operation returns
  false; the operation returns true only when the remove call itself returned without an
  exception, and it lets no exception escape.
\<close>

theorem object_delete_not_found:
  assumes "client_or_access L errors client w = (Some cl, errs, wc)"
  shows "(remove_object cl bucket (path_str L basepath name) wc = (Inl e, wr) \<and>
          exn_code e = Some ''NoSuchKey'' \<longrightarrow>
            object_delete L errors bucket basepath (Some name) client w
              = (Inr False, errors, wr)) \<and>
         (fst (object_delete L errors bucket basepath (Some name) client w) = Inr True \<longleftrightarrow>
            fst (remove_object cl bucket (path_str L basepath name) wc) = Inr ()) \<and>
         (fst (object_delete L errors bucket basepath (Some name) client w) = Inr False \<longleftrightarrow>
            fst (remove_object cl bucket (path_str L basepath name) wc) \<noteq> Inr ())"
proof -
  from assms have e: "errs = errors" by (rule client_or_access_Some)
  show ?thesis using assms e
    by (auto simp: object_delete_def reported_iff split: prod.splits sum.splits)
qed

theorem object_delete_not_found_witness:
  "fst (client_or_access demo_env [''earlier''] (Some demo_client)
          (demo_world [Some (S3Error ''NoSuchKey'')])) = Some demo_client \<and>
   fst (remove_object demo_client ''docs'' (path_str demo_env ''reports'' ''gone.txt'')
          (demo_world [Some (S3Error ''NoSuchKey'')])) = Inl (S3Error ''NoSuchKey'') \<and>
   exn_code (S3Error ''NoSuchKey'') = Some ''NoSuchKey'' \<and>
   fst (object_delete demo_env [''earlier''] ''docs'' ''reports'' (Some ''gone.txt'')
          (Some demo_client) (demo_world [Some (S3Error ''NoSuchKey'')])) = Inr False \<and>
   fst (snd (object_delete demo_env [''earlier''] ''docs'' ''reports'' (Some ''gone.txt'')
          (Some demo_client) (demo_world [Some (S3Error ''NoSuchKey'')]))) = [''earlier'']"
proof -
  let ?w = "demo_world [Some (S3Error ''NoSuchKey'')]"
  let ?r = "remove_object demo_client ''docs'' (path_str demo_env ''reports'' ''gone.txt'') ?w"
  have h: "client_or_access demo_env [''earlier''] (Some demo_client) ?w
             = (Some demo_client, [''earlier''], ?w)"
    by (simp add: client_or_access_def)
  have rf: "fst ?r = Inl (S3Error ''NoSuchKey'')"
    by (simp add: remove_object_def ext_call_def demo_world_def)
  have r: "?r = (Inl (S3Error ''NoSuchKey''), snd ?r)"
    by (rule prod_eqI) (simp_all add: rf)
  have c: "exn_code (S3Error ''NoSuchKey'') = Some ''NoSuchKey''"
    by (simp add: S3Error_def)
  have d: "object_delete demo_env [''earlier''] ''docs'' ''reports'' (Some ''gone.txt'')
          (Some demo_client) ?w = (Inr False, [''earlier''], snd ?r)"
    using object_delete_not_found [OF h, where bucket = "''docs''" and basepath = "''reports''"
      and name = "''gone.txt''" and e = "S3Error ''NoSuchKey''" and wr = "snd ?r"] r c
    by blast
  have "fst (object_delete demo_env [''earlier''] ''docs'' ''reports'' (Some ''gone.txt'')
          (Some demo_client) ?w) = Inr False"
    and "fst (snd (object_delete demo_env [''earlier''] ''docs'' ''reports'' (Some ''gone.txt'')
          (Some demo_client) ?w)) = [''earlier'']"
    by (simp_all add: d)
  moreover have "fst (client_or_access demo_env [''earlier''] (Some demo_client) ?w)
      = Some demo_client"
    by (simp add: h)
  ultimately show ?thesis using rf c by blast
qed

subsection \<open>C3: folder deletion\<close>

text \<open>
  C3: Folder Deletion with a client for the listing at hand. The calls it makes after
  \<^verbatim>\<open>_objects_list\<close> returned the cursor are listing requests and remove calls only. The
  remove calls are for the descriptors of the recursive listing of the prefix, one call for
  each, in listing order, whatever the remove calls raise; when no listing request fails,
  so that the listing yields all its N descriptors, there are exactly N of them, one for
  every descriptor, and the traversal returns. The error list it leaves is the list it was
  given followed by one entry for each remove call that raised an exception whose code is
  not \<^verbatim>\<open>NoSuchKey\<close>, in the order of the calls; a remove call that raised \<^verbatim>\<open>NoSuchKey\<close> adds
  nothing and does not stop the traversal.
\<close>

theorem folder_delete_traversal:
  assumes "objects_list L errors bucket basepath True None w = (Some cur, errs, wl)"
  shows "case folder_delete L errors bucket basepath client w of
           (r, errors', w') \<Rightarrow>
             prefix (trace wl) (trace w') \<and>
             list_all (\<lambda>p. is_remove (fst p) \<or> is_listing (fst p)) (new_calls wl w') \<and>
             prefix (map fst (remove_calls (new_calls wl w')))
               (map (\<lambda>ob. Remove_Object bucket (object_name ob))
                  (listing bucket basepath True (disk wl))) \<and>
             (listing_failure (new_calls wl w') = None \<longrightarrow>
                r = Inr () \<and>
                map fst (remove_calls (new_calls wl w'))
                  = map (\<lambda>ob. Remove_Object bucket (object_name ob))
                      (listing bucket basepath True (disk wl))) \<and>
             errors' = errors @ delete_errors L (new_calls wl w')"
proof -
  obtain r errors' w' where
    r: "remove_each L client bucket cur errs wl = (r, errors', w')"
    by (cases "remove_each L client bucket cur errs wl")
  from objects_list_Some [OF assms] have e: "errs = errors"
    and c: "cur = Unsent bucket basepath True" by simp_all
  from remove_each_run [OF r] obtain cs where
    cs: "trace w' = trace wl @ cs"
        "errors' = errs @ delete_errors L cs"
        "listing_failure cs = raised_by r"
        "list_all (\<lambda>p. is_remove (fst p) \<or> is_listing (fst p)) cs"
        "prefix (map fst (remove_calls cs))
           (map (\<lambda>ob. Remove_Object bucket (object_name ob)) (snapshot cur wl))"
        "r = Inr () \<longrightarrow> map fst (remove_calls cs)
           = map (\<lambda>ob. Remove_Object bucket (object_name ob)) (snapshot cur wl)"
    by blast
  have s: "snapshot cur wl = listing bucket basepath True (disk wl)"
    using c by (simp add: snapshot_def)
  have n: "new_calls wl w' = cs" using cs(1) by (simp add: new_calls_def)
  have u: "listing_failure cs = None \<longrightarrow> r = Inr ()"
    using cs(3) by (cases r) simp_all
  have "folder_delete L errors bucket basepath client w = (r, errors', w')"
    using assms r by (simp add: folder_delete_def)
  then show ?thesis using cs e s n u by simp
qed

theorem folder_delete_traversal_witness:
  "fst (objects_list demo_env [''earlier''] ''docs'' ''reports/'' True None
          (demo_world [None, None, Some (Exn ''S3Error'' (Some ''AccessDenied'') ''denied''),
                       Some (S3Error ''NoSuchKey''), None, None]))
     = Some (Unsent ''docs'' ''reports/'' True) \<and>
   listing_failure (new_calls
      (snd (snd (objects_list demo_env [''earlier''] ''docs'' ''reports/'' True None
          (demo_world [None, None, Some (Exn ''S3Error'' (Some ''AccessDenied'') ''denied''),
                       Some (S3Error ''NoSuchKey''), None, None]))))
      (snd (snd (folder_delete demo_env [''earlier''] ''docs'' ''reports/'' demo_client
          (demo_world [None, None, Some (Exn ''S3Error'' (Some ''AccessDenied'') ''denied''),
                       Some (S3Error ''NoSuchKey''), None, None]))))) = None \<and>
   map fst (remove_calls (new_calls
      (snd (snd (objects_list demo_env [''earlier''] ''docs'' ''reports/'' True None
          (demo_world [None, None, Some (Exn ''S3Error'' (Some ''AccessDenied'') ''denied''),
                       Some (S3Error ''NoSuchKey''), None, None]))))
      (snd (snd (folder_delete demo_env [''earlier''] ''docs'' ''reports/'' demo_client
          (demo_world [None, None, Some (Exn ''S3Error'' (Some ''AccessDenied'') ''denied''),
                       Some (S3Error ''NoSuchKey''), None, None]))))))
     = [Remove_Object ''docs'' ''reports/2024/q1.pdf'',
        Remove_Object ''docs'' ''reports/2024/q2.pdf'',
        Remove_Object ''docs'' ''reports/readme.txt''] \<and>
   fst (folder_delete demo_env [''earlier''] ''docs'' ''reports/'' demo_client
          (demo_world [None, None, Some (Exn ''S3Error'' (Some ''AccessDenied'') ''denied''),
                       Some (S3Error ''NoSuchKey''), None, None])) = Inr () \<and>
   fst (snd (folder_delete demo_env [''earlier''] ''docs'' ''reports/'' demo_client
          (demo_world [None, None, Some (Exn ''S3Error'' (Some ''AccessDenied'') ''denied''),
                       Some (S3Error ''NoSuchKey''), None, None])))
     = [''earlier'', ''S3Error: denied'']"
proof -
  let ?w = "demo_world [None, None, Some (Exn ''S3Error'' (Some ''AccessDenied'') ''denied''),
                        Some (S3Error ''NoSuchKey''), None, None]"
  let ?l = "objects_list demo_env [''earlier''] ''docs'' ''reports/'' True None ?w"
  let ?d = "folder_delete demo_env [''earlier''] ''docs'' ''reports/'' demo_client ?w"
  let ?cs = "new_calls (snd (snd ?l)) (snd (snd ?d))"
  have f: "fst ?l = Some (Unsent ''docs'' ''reports/'' True)" by (simp add: eval_defs)
  have h: "?l = (Some (Unsent ''docs'' ''reports/'' True), fst (snd ?l), snd (snd ?l))"
    by (rule prod_eqI) (simp_all add: f)
  have q: "listing_failure ?cs = None" by (simp add: eval_defs)
  have n: "delete_errors demo_env ?cs = [''S3Error: denied'']" by (simp add: eval_defs)
  have s: "listing ''docs'' ''reports/'' True (disk (snd (snd ?l)))
             = [describe ''docs'' ''reports/2024/q1.pdf'', describe ''docs'' ''reports/2024/q2.pdf'',
                describe ''docs'' ''reports/readme.txt'']"
    by (simp add: eval_defs)
  note inst = folder_delete_traversal [OF h, where client = demo_client]
  have a: "listing_failure ?cs = None \<longrightarrow>
             fst ?d = Inr () \<and>
             map fst (remove_calls ?cs)
               = map (\<lambda>ob. Remove_Object ''docs'' (object_name ob))
                   (listing ''docs'' ''reports/'' True (disk (snd (snd ?l))))"
    using inst by (simp add: case_prod_unfold)
  have b: "fst (snd ?d) = [''earlier''] @ delete_errors demo_env ?cs"
    using inst by (simp add: case_prod_unfold)
  have "map fst (remove_calls ?cs)
          = [Remove_Object ''docs'' ''reports/2024/q1.pdf'',
             Remove_Object ''docs'' ''reports/2024/q2.pdf'',
             Remove_Object ''docs'' ''reports/readme.txt'']"
    using a q by (simp add: s describe_def)
  moreover have "fst ?d = Inr ()" using a q by simp
  moreover have "fst (snd ?d) = [''earlier'', ''S3Error: denied'']"
    by (simp add: b n)
  ultimately show ?thesis using f q by blast
qed

subsection \<open>C4: not found is not an error for Get and Stat\<close>

text \<open>
  C4: when the call behind Get (\<^verbatim>\<open>_file_retrieve\<close>) or behind Stat (\<^verbatim>\<open>_object_stat\<close>) raises,
  the operation returns \<^verbatim>\<open>None\<close>; if the exception has the code \<^verbatim>\<open>NoSuchKey\<close> the caller's error
  list is left as it was, and for every other exception its message is appended to the list.
\<close>

theorem not_found_is_not_an_error:
  assumes "client_or_access L errors client w = (Some cl, errs, wc)"
  shows "(fget_object cl bucket (path_str L basepath name) filepath wc = (Inl e, wg) \<longrightarrow>
            file_retrieve L errors bucket basepath name filepath client w =
              (None, if exn_code e = Some ''NoSuchKey'' then errors
                     else errors @ [except_text L e ''minio''], wg)) \<and>
         (stat_object cl bucket (path_str L basepath name) wc = (Inl x, ws) \<longrightarrow>
            object_stat L errors bucket basepath name client w =
              (None, if exn_code x = Some ''NoSuchKey'' then errors
                     else errors @ [except_text L x ''minio''], ws))"
proof -
  from assms have e: "errs = errors" by (rule client_or_access_Some)
  show ?thesis using assms e
    by (auto simp: file_retrieve_def object_stat_def reported_iff s3_except_msg_def)
qed

theorem not_found_is_not_an_error_witness:
  "fst (client_or_access demo_env [''earlier''] (Some demo_client) (demo_world []))
     = Some demo_client \<and>
   fst (fget_object demo_client ''docs'' (path_str demo_env ''reports'' ''none.txt'') ''/out/f''
          (demo_world [])) = Inl (S3Error ''NoSuchKey'') \<and>
   fst (stat_object demo_client ''docs'' (path_str demo_env ''reports'' ''none.txt'')
          (demo_world [])) = Inl (S3Error ''NoSuchKey'') \<and>
   fst (file_retrieve demo_env [''earlier''] ''docs'' ''reports'' ''none.txt'' ''/out/f''
          (Some demo_client) (demo_world [])) = None \<and>
   fst (snd (file_retrieve demo_env [''earlier''] ''docs'' ''reports'' ''none.txt'' ''/out/f''
          (Some demo_client) (demo_world []))) = [''earlier''] \<and>
   fst (object_stat demo_env [''earlier''] ''docs'' ''reports'' ''none.txt''
          (Some demo_client) (demo_world [])) = None \<and>
   fst (snd (object_stat demo_env [''earlier''] ''docs'' ''reports'' ''none.txt''
          (Some demo_client) (demo_world []))) = [''earlier'']"
proof -
  let ?w = "demo_world []"
  let ?g = "fget_object demo_client ''docs'' (path_str demo_env ''reports'' ''none.txt'') ''/out/f'' ?w"
  let ?s = "stat_object demo_client ''docs'' (path_str demo_env ''reports'' ''none.txt'') ?w"
  have h: "client_or_access demo_env [''earlier''] (Some demo_client) ?w
             = (Some demo_client, [''earlier''], ?w)"
    by (simp add: client_or_access_def)
  have gf: "fst ?g = Inl (S3Error ''NoSuchKey'')" by (simp add: eval_defs)
  have sf: "fst ?s = Inl (S3Error ''NoSuchKey'')" by (simp add: eval_defs)
  have g: "?g = (Inl (S3Error ''NoSuchKey''), snd ?g)" by (rule prod_eqI) (simp_all add: gf)
  have s: "?s = (Inl (S3Error ''NoSuchKey''), snd ?s)" by (rule prod_eqI) (simp_all add: sf)
  have c: "exn_code (S3Error ''NoSuchKey'') = Some ''NoSuchKey''" by (simp add: S3Error_def)
  note inst = not_found_is_not_an_error [OF h, where bucket = "''docs''"
      and basepath = "''reports''" and name = "''none.txt''" and filepath = "''/out/f''"
      and e = "S3Error ''NoSuchKey''" and wg = "snd ?g"
      and x = "S3Error ''NoSuchKey''" and ws = "snd ?s"]
  have fr: "file_retrieve demo_env [''earlier''] ''docs'' ''reports'' ''none.txt'' ''/out/f''
          (Some demo_client) ?w
          = (None, if exn_code (S3Error ''NoSuchKey'') = Some ''NoSuchKey'' then [''earlier'']
                   else [''earlier''] @ [except_text demo_env (S3Error ''NoSuchKey'') ''minio''],
             snd ?g)"
    using inst g by blast
  have os: "object_stat demo_env [''earlier''] ''docs'' ''reports'' ''none.txt''
          (Some demo_client) ?w
          = (None, if exn_code (S3Error ''NoSuchKey'') = Some ''NoSuchKey'' then [''earlier'']
                   else [''earlier''] @ [except_text demo_env (S3Error ''NoSuchKey'') ''minio''],
             snd ?s)"
    using inst s by blast
  have "fst (file_retrieve demo_env [''earlier''] ''docs'' ''reports'' ''none.txt'' ''/out/f''
          (Some demo_client) ?w) = None"
    and "fst (snd (file_retrieve demo_env [''earlier''] ''docs'' ''reports'' ''none.txt''
          ''/out/f'' (Some demo_client) ?w)) = [''earlier'']"
    by (simp_all add: fr c)
  moreover have "fst (object_stat demo_env [''earlier''] ''docs'' ''reports'' ''none.txt''
          (Some demo_client) ?w) = None"
    and "fst (snd (object_stat demo_env [''earlier''] ''docs'' ''reports'' ''none.txt''
          (Some demo_client) ?w)) = [''earlier'']"
    by (simp_all add: os c)
  moreover have "fst (client_or_access demo_env [''earlier''] (Some demo_client) ?w)
      = Some demo_client"
    by (simp add: h)
  ultimately show ?thesis using gf sf by blast
qed

subsection \<open>C5: a value stored is the value retrieved\<close>




subsection \<open>C6: tag values are stored without diacritics\<close>

text \<open>
  C6: when the file-store operation succeeds with a tag map that is not empty, the tags
  of the stored object are the caller's tags with \<^verbatim>\<open>unidecode\<close> applied to every value, and
  retrieving the tags returns these stripped values; an e with an acute accent is stored as
  a plain e. When the tag map is \<^verbatim>\<open>None\<close> or empty, the stored object has no tags. A tag map
  is a dict, so its keys are distinct; the retrieval meets no fault.
\<close>

theorem file_store_tags_stripped:
  assumes "file_store L errors bucket basepath name filepath mimetype tgs client w
             = (True, errors', w')"
    and "\<forall>items. tgs = Some items \<longrightarrow> distinct (map fst items)"
    and "fault_free w'"
  shows "(\<exists>ob. map_of (objects (disk w')) (bucket, path_str L basepath name) = Some ob \<and>
               tagset ob = attached_tags L tgs) \<and>
         fst (object_tags_retrieve L errors_get bucket basepath name client_get w')
           = attached_tags L tgs"
proof -
  from file_store_True [OF assms(1)] obtain ob where b: "has_bucket bucket w'"
    and m: "map_of (objects (disk w')) (bucket, path_str L basepath name) = Some ob"
    and t: "tagset ob = doc_tags_of L tgs" by blast
  from t have t': "tagset ob = attached_tags L tgs"
    using doc_tags_of_distinct [OF assms(2)] by simp
  from object_tags_retrieve_fault_free [OF assms(3) b m, of errors_get client_get]
  have "fst (object_tags_retrieve L errors_get bucket basepath name client_get w')
          = (case attached_tags L tgs of
               None \<Rightarrow> None
             | Some items \<Rightarrow> if length items > 0 then Some (copy_tags items) else None)"
    using t' by auto
  then show ?thesis using m t' attached_tags_copy [OF assms(2)] by simp
qed

theorem file_store_tags_stripped_witness:
  "fst (file_store demo_env [] ''docs'' ''reports/2024'' ''q3.pdf'' ''/in/q3.pdf''
          ''application/pdf''
          (Some [(''author'', [CHR ''J'', CHR ''o'', CHR ''s'', CHR 0xE9]), (''place'', [CHR ''c'', CHR ''a'', CHR ''f'', CHR 0xE9])])
          None (demo_world [])) = True \<and>
   distinct (map fst [(''author'', [CHR ''J'', CHR ''o'', CHR ''s'', CHR 0xE9]), (''place'', [CHR ''c'', CHR ''a'', CHR ''f'', CHR 0xE9])]) \<and>
   fst (object_tags_retrieve demo_env [] ''docs'' ''reports/2024'' ''q3.pdf'' None
          (snd (snd (file_store demo_env [] ''docs'' ''reports/2024'' ''q3.pdf'' ''/in/q3.pdf''
             ''application/pdf''
             (Some [(''author'', [CHR ''J'', CHR ''o'', CHR ''s'', CHR 0xE9]), (''place'', [CHR ''c'', CHR ''a'', CHR ''f'', CHR 0xE9])])
             None (demo_world [])))))
     = Some [(''author'', ''Jose''), (''place'', ''cafe'')]"
proof -
  let ?tgs = "Some [(''author'', [CHR ''J'', CHR ''o'', CHR ''s'', CHR 0xE9]), (''place'', [CHR ''c'', CHR ''a'', CHR ''f'', CHR 0xE9])]"
  let ?s = "file_store demo_env [] ''docs'' ''reports/2024'' ''q3.pdf'' ''/in/q3.pdf''
              ''application/pdf'' ?tgs None (demo_world [])"
  have r: "fst ?s = True" by (simp add: eval_defs)
  have h: "?s = (True, fst (snd ?s), snd (snd ?s))" by (rule prod_eqI) (simp_all add: r)
  have d: "\<forall>items. ?tgs = Some items \<longrightarrow> distinct (map fst items)" by simp
  have f: "fault_free (snd (snd ?s))" by (simp add: eval_defs)
  have a: "attached_tags demo_env ?tgs = Some [(''author'', ''Jose''), (''place'', ''cafe'')]"
    by (simp add: attached_tags_def strip_values_def demo_env_def)
  from file_store_tags_stripped [OF h d f, of "[]" None] r a show ?thesis by simp
qed

subsection \<open>C7: the temporary file of the Tagged Value Store's Put\<close>

text \<open>
  C7: with a client at hand and the value serialized to the temporary file, the Put of the
  Tagged Value Store removes the temporary file exactly when the upload succeeded. The
  upload \<^verbatim>\<open>_file_store\<close> succeeds exactly when its call \<^verbatim>\<open>fput_object\<close> returned, and the errors
  it reports are none in that case and the message of the exception that \<^verbatim>\<open>fput_object\<close>
  raised otherwise. If the upload succeeded, the operation returns true, leaves the caller's
  error list as it was, and the file is gone. If the upload failed, the operation returns
  false, the caller's list is the list it was given followed by the upload's errors, of
  which there is at least one, and the file is still there with the serialized value.
\<close>

theorem object_store_temp_file:
  assumes "client_or_access L errors client w = (Some cl, errs, wc)"
    and "pickle_dumps L obj = Inr bytes"
    and "temp_path L wc = (filepath, wt)"
    and "file_store L [] bucket basepath name filepath ''application/octet-stream'' tgs
           (Some cl) (set_file filepath (Some bytes) wt) = (uploaded, op_errors, wu)"
  shows "case object_store L errors bucket basepath name obj tgs client w of
           (result, errors', w') \<Rightarrow>
             (uploaded \<longleftrightarrow>
                raised_by (fst (fput_object cl bucket (path_str L basepath name) filepath
                  ''application/octet-stream'' (doc_tags_of L tgs)
                  (set_file filepath (Some bytes) wt))) = None) \<and>
             op_errors =
               (case raised_by (fst (fput_object cl bucket (path_str L basepath name) filepath
                  ''application/octet-stream'' (doc_tags_of L tgs)
                  (set_file filepath (Some bytes) wt))) of
                  None \<Rightarrow> []
                | Some e \<Rightarrow> [except_text L e ''minio'']) \<and>
             (if uploaded
              then result = Inr True \<and> errors' = errors \<and> files (disk w') filepath = None
              else result = Inr False \<and> errors' = errors @ op_errors \<and> op_errors \<noteq> [] \<and>
                   files (disk w') filepath = Some bytes)"
proof -
  let ?wd = "set_file filepath (Some bytes) wt"
  let ?put = "fput_object cl bucket (path_str L basepath name) filepath
                ''application/octet-stream'' (doc_tags_of L tgs) ?wd"
  from assms(1) have e: "errs = errors" by (rule client_or_access_Some)
  have d: "dump_to L obj filepath wt = (Inr (), ?wd)"
    using assms(2) by (simp add: dump_to_def)
  obtain up wp where p: "?put = (up, wp)" by (cases ?put)
  from fput_object_frame [OF p]
  have f: "files (disk wp) filepath = Some bytes" by simp
  show ?thesis
  proof (cases up)
    case (Inr u)
    with p assms(4) have s: "uploaded" "op_errors = []" "wu = wp"
      by (simp_all add: file_store_def client_or_access_def)
    have "unlink filepath wu = (Inr (), set_file filepath None wu)"
      using f s by (simp add: unlink_def)
    then have "object_store L errors bucket basepath name obj tgs client w
                 = (Inr True, errors, set_file filepath None wu)"
      using assms(1,3,4) s d e by (simp add: object_store_def)
    then show ?thesis using Inr p s by simp
  next
    case (Inl x)
    with p assms(4) have s: "\<not> uploaded" "op_errors = [except_text L x ''minio'']" "wu = wp"
      by (simp_all add: file_store_def client_or_access_def s3_except_msg_def)
    have "object_store L errors bucket basepath name obj tgs client w
            = (Inr False, errors @ op_errors, wu)"
      using assms(1,3,4) s d e by (simp add: object_store_def)
    then show ?thesis using Inl p s f by simp
  qed
qed

theorem object_store_temp_file_witness:
  "fst (client_or_access demo_env [''earlier''] (Some demo_client)
          (demo_world [Some (Exn ''S3Error'' (Some ''AccessDenied'') ''denied'')]))
     = Some demo_client \<and>
   pickle_dumps demo_env (PyStr ''hello'') = Inr ''shello'' \<and>
   fst (temp_path demo_env (demo_world [Some (Exn ''S3Error'' (Some ''AccessDenied'') ''denied'')]))
     = ''/tmp/u.pickle'' \<and>
   fst (file_store demo_env [] ''docs'' ''values'' ''v1'' ''/tmp/u.pickle''
          ''application/octet-stream'' None (Some demo_client)
          (set_file ''/tmp/u.pickle'' (Some ''shello'')
             (snd (temp_path demo_env (demo_world [Some (Exn ''S3Error'' (Some ''AccessDenied'') ''denied'')])))))
     = False \<and>
   fst (snd (file_store demo_env [] ''docs'' ''values'' ''v1'' ''/tmp/u.pickle''
          ''application/octet-stream'' None (Some demo_client)
          (set_file ''/tmp/u.pickle'' (Some ''shello'')
             (snd (temp_path demo_env (demo_world [Some (Exn ''S3Error'' (Some ''AccessDenied'') ''denied'')]))))))
     = [''S3Error: denied''] \<and>
   fst (object_store demo_env [''earlier''] ''docs'' ''values'' ''v1'' (PyStr ''hello'') None
          (Some demo_client) (demo_world [Some (Exn ''S3Error'' (Some ''AccessDenied'') ''denied'')]))
     = Inr False \<and>
   fst (snd (object_store demo_env [''earlier''] ''docs'' ''values'' ''v1'' (PyStr ''hello'') None
          (Some demo_client) (demo_world [Some (Exn ''S3Error'' (Some ''AccessDenied'') ''denied'')])))
     = [''earlier'', ''S3Error: denied''] \<and>
   files (disk (snd (snd (object_store demo_env [''earlier''] ''docs'' ''values'' ''v1''
          (PyStr ''hello'') None (Some demo_client)
          (demo_world [Some (Exn ''S3Error'' (Some ''AccessDenied'') ''denied'')])))))
      ''/tmp/u.pickle''
     = Some ''shello''"
proof -
  let ?w = "demo_world [Some (Exn ''S3Error'' (Some ''AccessDenied'') ''denied'')]"
  let ?t = "temp_path demo_env ?w"
  let ?u = "file_store demo_env [] ''docs'' ''values'' ''v1'' ''/tmp/u.pickle''
              ''application/octet-stream'' None (Some demo_client)
              (set_file ''/tmp/u.pickle'' (Some ''shello'') (snd ?t))"
  have h: "client_or_access demo_env [''earlier''] (Some demo_client) ?w
             = (Some demo_client, [''earlier''], ?w)"
    by (simp add: client_or_access_def)
  have d: "pickle_dumps demo_env (PyStr ''hello'') = Inr ''shello''" by (simp add: demo_env_def)
  let ?s = "object_store demo_env [''earlier''] ''docs'' ''values'' ''v1'' (PyStr ''hello'') None
              (Some demo_client) ?w"
  have p: "fst ?t = ''/tmp/u.pickle''" by (simp add: temp_path_def demo_env_def demo_world_def)
  have t: "?t = (''/tmp/u.pickle'', snd ?t)" by (rule prod_eqI) (simp_all add: p)
  have o: "fst ?u = False" by (simp add: eval_defs)
  have o': "fst (snd ?u) = [''S3Error: denied'']" by (simp add: eval_defs)
  have u: "?u = (False, [''S3Error: denied''], snd (snd ?u))"
    by (rule prod_eqI) (simp add: o, rule prod_eqI, simp_all add: o')
  note inst = object_store_temp_file [OF h d t u]
  have "fst ?s = Inr False"
    and "fst (snd ?s) = [''earlier'', ''S3Error: denied'']"
    and "files (disk (snd (snd ?s))) ''/tmp/u.pickle'' = Some ''shello''"
    using inst by (simp_all add: case_prod_unfold)
  moreover have "fst (client_or_access demo_env [''earlier''] (Some demo_client) ?w)
      = Some demo_client"
    by (simp add: h)
  ultimately show ?thesis using d p o o' by blast
qed

subsection \<open>C8: the folder form of Exists raises\<close>




subsection \<open>C9: the folder form of Delete\<close>




subsection \<open>C10: the error list only grows\<close>

text \<open>
  C10: every operation of the module leaves an error list that has the list it was given
  as a prefix, whatever that list held, and leaves exactly that list when none of the calls
  it made raised an exception.
\<close>

theorem errors_only_appended:
  "(case access L errors w of (r, errors', w') \<Rightarrow> grows errors w errors' w') \<and>
   (case startup L errors bucket w of (r, errors', w') \<Rightarrow> grows errors w errors' w') \<and>
   (case file_store L errors bucket basepath name filepath mimetype tgs client w of
      (r, errors', w') \<Rightarrow> grows errors w errors' w') \<and>
   (case file_retrieve L errors bucket basepath name filepath client w of
      (r, errors', w') \<Rightarrow> grows errors w errors' w') \<and>
   (case object_exists L errors bucket basepath opt_name client w of
      (r, errors', w') \<Rightarrow> grows errors w errors' w') \<and>
   (case object_stat L errors bucket basepath name client w of
      (r, errors', w') \<Rightarrow> grows errors w errors' w') \<and>
   (case object_store L errors bucket basepath name obj tgs client w of
      (r, errors', w') \<Rightarrow> grows errors w errors' w') \<and>
   (case object_retrieve L errors bucket basepath name client w of
      (r, errors', w') \<Rightarrow> grows errors w errors' w') \<and>
   (case object_delete L errors bucket basepath opt_name client w of
      (r, errors', w') \<Rightarrow> grows errors w errors' w') \<and>
   (case object_tags_retrieve L errors bucket basepath name client w of
      (r, errors', w') \<Rightarrow> grows errors w errors' w') \<and>
   (case objects_list L errors bucket basepath recursive client w of
      (r, errors', w') \<Rightarrow> grows errors w errors' w') \<and>
   (case folder_delete L errors bucket basepath cl w of
      (r, errors', w') \<Rightarrow> grows errors w errors' w')"
proof -
  have "case access L errors w of (r, errors', w') \<Rightarrow> grows errors w errors' w'"
    by (auto split: prod.splits dest: access_grows)
  moreover have "case startup L errors bucket w of (r, errors', w') \<Rightarrow> grows errors w errors' w'"
    by (auto split: prod.splits dest: startup_grows)
  moreover have "case file_store L errors bucket basepath name filepath mimetype tgs client w of
      (r, errors', w') \<Rightarrow> grows errors w errors' w'"
    by (auto split: prod.splits dest: file_store_grows)
  moreover have "case file_retrieve L errors bucket basepath name filepath client w of
      (r, errors', w') \<Rightarrow> grows errors w errors' w'"
    by (auto split: prod.splits dest: file_retrieve_grows)
  moreover have "case object_exists L errors bucket basepath opt_name client w of
      (r, errors', w') \<Rightarrow> grows errors w errors' w'"
    by (auto split: prod.splits dest: object_exists_grows)
  moreover have "case object_stat L errors bucket basepath name client w of
      (r, errors', w') \<Rightarrow> grows errors w errors' w'"
    by (auto split: prod.splits dest: object_stat_grows)
  moreover have "case object_store L errors bucket basepath name obj tgs client w of
      (r, errors', w') \<Rightarrow> grows errors w errors' w'"
    by (auto split: prod.splits dest: object_store_grows)
  moreover have "case object_retrieve L errors bucket basepath name client w of
      (r, errors', w') \<Rightarrow> grows errors w errors' w'"
    by (auto split: prod.splits dest: object_retrieve_grows)
  moreover have "case object_delete L errors bucket basepath opt_name client w of
      (r, errors', w') \<Rightarrow> grows errors w errors' w'"
    by (auto split: prod.splits dest: object_delete_grows)
  moreover have "case object_tags_retrieve L errors bucket basepath name client w of
      (r, errors', w') \<Rightarrow> grows errors w errors' w'"
    by (auto split: prod.splits dest: object_tags_retrieve_grows)
  moreover have "case objects_list L errors bucket basepath recursive client w of
      (r, errors', w') \<Rightarrow> grows errors w errors' w'"
    by (auto split: prod.splits dest: objects_list_grows)
  moreover have "case folder_delete L errors bucket basepath cl w of
      (r, errors', w') \<Rightarrow> grows errors w errors' w'"
    by (auto split: prod.splits dest: folder_delete_grows)
  ultimately show ?thesis by blast
qed

theorem errors_only_appended_witness:
  "quiet (new_calls (demo_world [])
     (snd (snd (startup demo_env [''earlier''] ''docs'' (demo_world []))))) \<and>
   fst (snd (startup demo_env [''earlier''] ''docs'' (demo_world []))) = [''earlier''] \<and>
   prefix [''earlier'']
     (fst (snd (startup demo_env [''earlier''] ''docs'' (demo_world []))))"
proof -
  have q: "quiet (new_calls (demo_world [])
     (snd (snd (startup demo_env [''earlier''] ''docs'' (demo_world [])))))"
    by (simp add: eval_defs)
  note inst = errors_only_appended [where L = demo_env and errors = "[''earlier'']"
      and w = "demo_world []" and bucket = "''docs''", THEN conjunct2, THEN conjunct1]
  have g: "grows [''earlier''] (demo_world [])
             (fst (snd (startup demo_env [''earlier''] ''docs'' (demo_world []))))
             (snd (snd (startup demo_env [''earlier''] ''docs'' (demo_world []))))"
    using inst by (simp add: case_prod_unfold)
  have "fst (snd (startup demo_env [''earlier''] ''docs'' (demo_world []))) = [''earlier'']"
    using g q by (simp add: grows_def)
  moreover have "prefix [''earlier'']
     (fst (snd (startup demo_env [''earlier''] ''docs'' (demo_world []))))"
    using g by (simp add: grows_def)
  ultimately show ?thesis using q by blast
qed

end
